theory Spec2Isabelle
  imports Main
begin

section \<open>The volatility model of allora-model-maker\<close>

text \<open>
  This theory embeds \<^verbatim>\<open>src/models/rfregressor_volatility/model.py\<close> and
  \<^verbatim>\<open>configs.py\<close>. The program is written against pandas, numpy and scikit-learn.
  The table plumbing of pandas that the methods rely on (\<^verbatim>\<open>copy\<close>, \<^verbatim>\<open>fillna\<close>,
  \<^verbatim>\<open>shift\<close>, \<^verbatim>\<open>iloc\<close>, \<^verbatim>\<open>dropna\<close>, column selection and assignment) is written
  out. The floating-point kernels (logarithm of a quotient, standard deviation, mean,
  the exponentially weighted update), the parsing of duration strings and the
  regression estimator are not code of the repository: they are the fields of a record
  \<open>ext\<close> that every operation takes, so each theorem holds for every behaviour of them.
  The calls of \<^verbatim>\<open>print\<close> are left out.

  A cell is \<open>'a option\<close>: \<open>None\<close> is pandas' missing value (NaN), \<open>Some x\<close> a value
  that is not NaN.
\<close>

subsection \<open>Errors\<close>

datatype error =
    KeyError string        \<comment> \<open>a column that the table does not have\<close>
  | ValueError string      \<comment> \<open>\<^verbatim>\<open>range\<close> or a slice with step zero, a length mismatch\<close>
  | LibraryError string    \<comment> \<open>raised inside pandas' duration parsing, the estimator or \<^verbatim>\<open>save\<close>\<close>

subsection \<open>Series\<close>

type_synonym 'a series = "'a option list"

text \<open>\<^verbatim>\<open>Series.shift(k)\<close>: the values move \<open>k\<close> positions towards the end (towards
  the start for a negative \<open>k\<close>); the length is kept and the vacated positions are
  missing.\<close>

definition shift :: "int \<Rightarrow> 'a series \<Rightarrow> 'a series" where
  "shift k xs =
     (if 0 \<le> k then take (length xs) (replicate (nat k) None @ xs)
      else drop (nat (- k)) xs @ replicate (min (nat (- k)) (length xs)) None)"

text \<open>\<^verbatim>\<open>s.iloc[start:end]\<close> for \<open>0 \<le> start \<le> end\<close>, and the assignment
  \<^verbatim>\<open>s.iloc[start:end] = v\<close> of one scalar to the positions of the slice.\<close>

definition iloc_slice :: "'b list \<Rightarrow> nat \<Rightarrow> nat \<Rightarrow> 'b list" where
  "iloc_slice xs start_idx end_idx = take (end_idx - start_idx) (drop start_idx xs)"

definition iloc_assign :: "'b list \<Rightarrow> nat \<Rightarrow> nat \<Rightarrow> 'b \<Rightarrow> 'b list" where
  "iloc_assign xs start_idx end_idx v =
     take start_idx xs @ replicate (min end_idx (length xs) - start_idx) v @ drop end_idx xs"

text \<open>The values of a series that are not missing, in order: what a reduction with
  \<^verbatim>\<open>skipna=True\<close> (pandas' default) is computed from.\<close>

definition present :: "'a series \<Rightarrow> 'a list" where
  "present xs = List.map_filter (\<lambda>x. x) xs"

text \<open>\<^verbatim>\<open>fillna(method='ffill')\<close> and \<^verbatim>\<open>fillna(method='bfill')\<close> on one column.\<close>

fun ffill_from :: "'a option \<Rightarrow> 'a series \<Rightarrow> 'a series" where
  "ffill_from prev [] = []"
| "ffill_from prev (None # xs) = prev # ffill_from prev xs"
| "ffill_from prev (Some v # xs) = Some v # ffill_from (Some v) xs"

definition ffill :: "'a series \<Rightarrow> 'a series" where
  "ffill xs = ffill_from None xs"

definition bfill :: "'a series \<Rightarrow> 'a series" where
  "bfill xs = rev (ffill_from None (rev xs))"

text \<open>\<^verbatim>\<open>fillna(method='ffill').fillna(method='bfill')\<close> and \<^verbatim>\<open>fillna(v)\<close> on one
  column.\<close>

definition fill_both :: "'a series \<Rightarrow> 'a series" where
  "fill_both xs = bfill (ffill xs)"

definition fill_zero :: "'a \<Rightarrow> 'a series \<Rightarrow> 'a series" where
  "fill_zero v xs = map (\<lambda>x. case x of None \<Rightarrow> Some v | Some y \<Rightarrow> Some y) xs"

text \<open>\<^verbatim>\<open>xs[::step]\<close> for a positive step: the positions \<open>0, step, 2 * step, ...\<close>.\<close>

fun every_nth :: "nat \<Rightarrow> 'b list \<Rightarrow> 'b list" where
  "every_nth step [] = []"
| "every_nth step (x # xs) = x # every_nth step (drop (step - 1) xs)"

subsection \<open>Tables\<close>

text \<open>A DataFrame: the row labels and the columns in their order, each column with
  its name. pandas keeps every column as long as the index; the tables of this program
  carry each column name once (\<open>wf_frame\<close>).\<close>

record ('i, 'a) frame =
  index :: "'i list"
  columns :: "(string \<times> 'a series) list"

definition wf_frame :: "('i, 'a) frame \<Rightarrow> bool" where
  "wf_frame df \<longleftrightarrow>
     distinct (map fst (columns df)) \<and>
     list_all (\<lambda>c. length (snd c) = length (index df)) (columns df)"

definition col :: "('i, 'a) frame \<Rightarrow> string \<Rightarrow> 'a series option" where
  "col df name = map_of (columns df) name"

text \<open>\<^verbatim>\<open>df[name] = values\<close>: an existing column is replaced where it stands, a new one
  is appended after the others.\<close>

fun set_column :: "string \<Rightarrow> 'a series \<Rightarrow> (string \<times> 'a series) list \<Rightarrow> (string \<times> 'a series) list" where
  "set_column name v [] = [(name, v)]"
| "set_column name v (c # cs) =
     (if fst c = name then (name, v) # cs else c # set_column name v cs)"

definition set_col :: "('i, 'a) frame \<Rightarrow> string \<Rightarrow> 'a series \<Rightarrow> ('i, 'a) frame" where
  "set_col df name v = df\<lparr>columns := set_column name v (columns df)\<rparr>"

text \<open>Several assignments, one after the other.\<close>

definition assign_all :: "(string \<times> 'a series) list \<Rightarrow> ('i, 'a) frame \<Rightarrow> ('i, 'a) frame" where
  "assign_all kvs df = foldl (\<lambda>f kv. set_col f (fst kv) (snd kv)) df kvs"

definition map_columns :: "('a series \<Rightarrow> 'b series) \<Rightarrow> ('i, 'a) frame \<Rightarrow> ('i, 'b) frame" where
  "map_columns f df = \<lparr>index = index df, columns = map (\<lambda>c. (fst c, f (snd c))) (columns df)\<rparr>"

text \<open>\<^verbatim>\<open>df.dropna()\<close>: the rows in which no column is missing.\<close>

definition complete_row :: "('i, 'a) frame \<Rightarrow> nat \<Rightarrow> bool" where
  "complete_row df t = list_all (\<lambda>c. snd c ! t \<noteq> None) (columns df)"

definition pick :: "nat list \<Rightarrow> 'b list \<Rightarrow> 'b list" where
  "pick ts xs = map (\<lambda>t. xs ! t) ts"

definition dropna :: "('i, 'a) frame \<Rightarrow> ('i, 'a) frame" where
  "dropna df =
     (let kept = filter (complete_row df) [0..<length (index df)]
      in \<lparr>index = pick kept (index df),
          columns = map (\<lambda>c. (fst c, pick kept (snd c))) (columns df)\<rparr>)"

text \<open>\<^verbatim>\<open>df.iloc[::step]\<close>: step zero is refused, a negative step walks from the last
  row backwards.\<close>

definition iloc_step :: "('i, 'a) frame \<Rightarrow> int \<Rightarrow> error + ('i, 'a) frame" where
  "iloc_step df step =
     (if step = 0 then Inl (ValueError ''slice step cannot be zero'')
      else if 0 < step then
        Inr \<lparr>index = every_nth (nat step) (index df),
             columns = map (\<lambda>c. (fst c, every_nth (nat step) (snd c))) (columns df)\<rparr>
      else
        Inr \<lparr>index = every_nth (nat (- step)) (rev (index df)),
             columns = map (\<lambda>c. (fst c, every_nth (nat (- step)) (rev (snd c)))) (columns df)\<rparr>)"

text \<open>\<^verbatim>\<open>df[names]\<close>: the named columns in the order of the list; a name the table
  does not have raises.\<close>

fun select_columns :: "(string \<times> 'a series) list \<Rightarrow> string list \<Rightarrow> error + (string \<times> 'a series) list" where
  "select_columns cs [] = Inr []"
| "select_columns cs (name # names) =
     (case map_of cs name of
        None \<Rightarrow> Inl (KeyError name)
      | Some v \<Rightarrow>
          (case select_columns cs names of
             Inl e \<Rightarrow> Inl e
           | Inr rest \<Rightarrow> Inr ((name, v) # rest)))"

definition select :: "('i, 'a) frame \<Rightarrow> string list \<Rightarrow> error + ('i, 'a) frame" where
  "select df names =
     (case select_columns (columns df) names of
        Inl e \<Rightarrow> Inl e
      | Inr cs \<Rightarrow> Inr \<lparr>index = index df, columns = cs\<rparr>)"

subsection \<open>The configuration\<close>

text \<open>\<^verbatim>\<open>RfregressorConfig\<close> of \<^verbatim>\<open>configs.py\<close>; \<open>RfregressorConfig_init\<close> is the object
  its constructor builds.\<close>

record RfregressorConfig =
  params :: "(string \<times> string) list"
  candle_interval :: string
  volatility_window :: string
  n_lags :: int
  ma_window :: int
  target_shift :: int
  fillna_method :: string
  technical_indicators :: "string list"
  n_estimators :: int
  random_state :: int
  n_jobs :: int

definition RfregressorConfig_init :: RfregressorConfig where
  "RfregressorConfig_init =
     \<lparr>params = [(''objective'', ''reg:squarederror''), (''eval_metric'', ''rmse'')],
      candle_interval = ''1min'',
      volatility_window = ''5min'',
      n_lags = 5,
      ma_window = 10,
      target_shift = 5,
      fillna_method = ''ffill'',
      technical_indicators = [''SMA_10'', ''EMA_10''],
      n_estimators = 10,
      random_state = 42,
      n_jobs = 25\<rparr>"

subsection \<open>What the libraries compute\<close>

text \<open>
  \<^item> \<open>log_ratio x y\<close> is \<^verbatim>\<open>np.log(x / y)\<close> on two values that are not NaN (the result
    can be NaN: \<open>None\<close>);
  \<^item> \<open>std_of xs\<close> is \<^verbatim>\<open>Series.std()\<close> on the values that are not NaN (NaN for fewer
    than two of them);
  \<^item> \<open>mean_of k xs\<close> is the last value of \<^verbatim>\<open>xs.rolling(window=k).mean()\<close> on a
    series \<open>xs\<close> of at least \<open>k\<close> rows whose last \<open>k\<close> values are not NaN (pandas keeps
    a running sum, so the value may depend on the rows before the window);
  \<^item> \<open>ewm_combine g y x\<close> is the update of the exponentially weighted mean \<open>y\<close> by
    the observation \<open>x\<close> that follows \<open>g\<close> missing ones (span 10, \<^verbatim>\<open>adjust=False\<close>);
  \<^item> \<open>zero\<close> is the float \<open>0\<close> of \<^verbatim>\<open>fillna(0)\<close>;
  \<^item> \<open>timedelta_ratio a b\<close> is \<^verbatim>\<open>int(pd.Timedelta(a) / pd.Timedelta(b))\<close>;
  \<^item> \<open>RandomForestRegressor\<close>, \<open>fit\<close> and \<open>predict\<close> are scikit-learn's estimator,
    \<open>save\<close> is the method of the base class \<^verbatim>\<open>Model\<close>.
\<close>

record ('i, 'a, 'm) ext =
  log_ratio :: "'a \<Rightarrow> 'a \<Rightarrow> 'a option"
  std_of :: "'a list \<Rightarrow> 'a option"
  mean_of :: "nat \<Rightarrow> 'a series \<Rightarrow> 'a option"
  ewm_combine :: "nat \<Rightarrow> 'a \<Rightarrow> 'a \<Rightarrow> 'a option"
  zero :: 'a
  timedelta_ratio :: "string \<Rightarrow> string \<Rightarrow> error + int"
  RandomForestRegressor :: "int \<Rightarrow> int \<Rightarrow> int \<Rightarrow> 'm"
  fit :: "'m \<Rightarrow> ('i, 'a) frame \<Rightarrow> 'a series \<Rightarrow> error + 'm"
  predict :: "'m \<Rightarrow> ('i, 'a) frame \<Rightarrow> error + 'a series"
  save :: "string \<Rightarrow> 'm \<Rightarrow> error option"

text \<open>\<^verbatim>\<open>np.log(a / b)\<close> on two series of one length: NaN wherever an operand is.\<close>

definition log_div :: "('i, 'a, 'm) ext \<Rightarrow> 'a option \<Rightarrow> 'a option \<Rightarrow> 'a option" where
  "log_div E a b = (case (a, b) of (Some x, Some y) \<Rightarrow> log_ratio E x y | _ \<Rightarrow> None)"

definition np_log_div :: "('i, 'a, 'm) ext \<Rightarrow> 'a series \<Rightarrow> 'a series \<Rightarrow> 'a series" where
  "np_log_div E a b = map (\<lambda>p. log_div E (fst p) (snd p)) (zip a b)"

definition series_std :: "('i, 'a, 'm) ext \<Rightarrow> 'a series \<Rightarrow> 'a option" where
  "series_std E xs = std_of E (present xs)"

text \<open>\<^verbatim>\<open>s.rolling(window=k).mean()\<close>: missing until \<open>k\<close> rows are there and wherever the
  window holds a missing value (\<^verbatim>\<open>min_periods\<close> is the window).\<close>

definition rolling_mean :: "('i, 'a, 'm) ext \<Rightarrow> nat \<Rightarrow> 'a series \<Rightarrow> 'a series" where
  "rolling_mean E k xs =
     map (\<lambda>t. if t + 1 < k then None
               else (let window = iloc_slice xs (t + 1 - k) (t + 1)
                     in if None \<in> set window then None else mean_of E k (take (t + 1) xs)))
         [0..<length xs]"

text \<open>\<^verbatim>\<open>s.ewm(span=10, adjust=False).mean()\<close>: the running mean starts at the first
  observation; a missing value repeats the mean and widens the gap.\<close>

fun ewm_from :: "('i, 'a, 'm) ext \<Rightarrow> 'a option \<Rightarrow> nat \<Rightarrow> 'a series \<Rightarrow> 'a series" where
  "ewm_from E weighted g [] = []"
| "ewm_from E None g (cur # xs) = cur # ewm_from E cur 0 xs"
| "ewm_from E (Some y) g (None # xs) = Some y # ewm_from E (Some y) (Suc g) xs"
| "ewm_from E (Some y) g (Some x # xs) =
     ewm_combine E g y x # ewm_from E (ewm_combine E g y x) 0 xs"

definition ewm_mean :: "('i, 'a, 'm) ext \<Rightarrow> 'a series \<Rightarrow> 'a series" where
  "ewm_mean E xs = ewm_from E None 0 xs"

subsection \<open>The volatility of non-overlapping windows\<close>

text \<open>The loop of \<^verbatim>\<open>_calculate_non_overlapping_volatility\<close>, for a positive step:
  \<^verbatim>\<open>range(0, len(series), window_points)\<close> is exhausted when \<open>start_idx\<close> reaches the
  length, and the loop breaks at the first window that does not fit.\<close>

function volatility_loop ::
  "('i, 'a, 'm) ext \<Rightarrow> 'a series \<Rightarrow> nat \<Rightarrow> nat \<Rightarrow> 'a series \<Rightarrow> 'a series" where
  "volatility_loop E log_returns window_points start_idx volatility =
     (if window_points = 0 \<or> length log_returns \<le> start_idx then volatility
      else
        (let end_idx = start_idx + window_points in
         if end_idx > length log_returns then volatility
         else
           (let window_data = iloc_slice log_returns start_idx end_idx;
                vol = series_std E window_data
            in volatility_loop E log_returns window_points end_idx
                 (iloc_assign volatility start_idx end_idx vol))))"
  by pat_completeness auto
termination
  by (relation "measure (\<lambda>(E, log_returns, window_points, start_idx, volatility).
        length log_returns - start_idx)") auto

declare volatility_loop.simps [simp del]

definition calculate_log_returns :: "('i, 'a, 'm) ext \<Rightarrow> 'a series \<Rightarrow> 'a series" where
  "calculate_log_returns E series = np_log_div E series (shift 1 series)"

text \<open>\<^verbatim>\<open>_calculate_non_overlapping_volatility(series, window_points)\<close>. \<^verbatim>\<open>range\<close> refuses
  the step zero and is empty for a negative step.\<close>

definition calculate_non_overlapping_volatility ::
  "('i, 'a, 'm) ext \<Rightarrow> 'a series \<Rightarrow> int \<Rightarrow> error + 'a series" where
  "calculate_non_overlapping_volatility E series window_points =
     (let log_returns = calculate_log_returns E series;
          volatility = replicate (length series) None
      in if window_points = 0 then Inl (ValueError ''range() arg 3 must not be zero'')
         else if window_points < 0 then Inr volatility
         else Inr (volatility_loop E log_returns (nat window_points) 0 volatility))"

subsection \<open>Objects, the wrapper and the calls of the estimator\<close>

text \<open>
  The methods work on DataFrame objects: \<^verbatim>\<open>df.copy()\<close> and \<^verbatim>\<open>df.fillna(...)\<close> build a
  new object, \<^verbatim>\<open>df[name] = values\<close> changes the object \<open>df\<close> refers to. The objects
  live in a store, a list addressed by position; a new object is appended. The world
  also carries the wrapper \<open>self\<close> (its estimator is replaced by \<^verbatim>\<open>fit\<close>) and the
  calls made to the estimator and to \<^verbatim>\<open>save\<close>, in order.
\<close>

record 'm wrapper =
  model_name :: string
  config :: RfregressorConfig
  model :: 'm
  self_candle_interval :: string
  self_volatility_window :: string
  debug :: bool

datatype ('i, 'a) call =
    Fit_call "('i, 'a) frame" "'a series"
  | Predict_call "('i, 'a) frame"
  | Save_call

record ('i, 'a, 'm) world =
  self :: "'m wrapper"
  objs :: "('i, 'a) frame list"
  calls :: "('i, 'a) call list"

type_synonym ('r, 'i, 'a, 'm) prog = "('i, 'a, 'm) world \<Rightarrow> (error + 'r) \<times> ('i, 'a, 'm) world"

definition return :: "'r \<Rightarrow> ('r, 'i, 'a, 'm) prog" where
  "return x = (\<lambda>w. (Inr x, w))"

definition raise :: "error \<Rightarrow> ('r, 'i, 'a, 'm) prog" where
  "raise e = (\<lambda>w. (Inl e, w))"

text \<open>One statement after another: an exception ends the run and keeps the world as
  it is at that point.\<close>

definition and_then ::
  "('r, 'i, 'a, 'm) prog \<Rightarrow> ('r \<Rightarrow> ('q, 'i, 'a, 'm) prog) \<Rightarrow> ('q, 'i, 'a, 'm) prog" where
  "and_then p f = (\<lambda>w. case p w of (Inl e, w') \<Rightarrow> (Inl e, w') | (Inr x, w') \<Rightarrow> f x w')"

definition lift :: "error + 'r \<Rightarrow> ('r, 'i, 'a, 'm) prog" where
  "lift r = (case r of Inl e \<Rightarrow> raise e | Inr x \<Rightarrow> return x)"

definition new_frame :: "('i, 'a) frame \<Rightarrow> (nat, 'i, 'a, 'm) prog" where
  "new_frame f = (\<lambda>w. (Inr (length (objs w)), w\<lparr>objs := objs w @ [f]\<rparr>))"

definition frame_at :: "nat \<Rightarrow> (('i, 'a) frame, 'i, 'a, 'm) prog" where
  "frame_at df = (\<lambda>w. (Inr (objs w ! df), w))"

definition frame_copy :: "nat \<Rightarrow> (nat, 'i, 'a, 'm) prog" where
  "frame_copy df = and_then (frame_at df) new_frame"

definition frame_fillna_ffill :: "nat \<Rightarrow> (nat, 'i, 'a, 'm) prog" where
  "frame_fillna_ffill df = and_then (frame_at df) (\<lambda>f. new_frame (map_columns ffill f))"

definition frame_fillna_bfill :: "nat \<Rightarrow> (nat, 'i, 'a, 'm) prog" where
  "frame_fillna_bfill df = and_then (frame_at df) (\<lambda>f. new_frame (map_columns bfill f))"

definition frame_fillna_value :: "nat \<Rightarrow> 'a \<Rightarrow> (nat, 'i, 'a, 'm) prog" where
  "frame_fillna_value df v =
     and_then (frame_at df)
       (\<lambda>f. new_frame (map_columns (fill_zero v) f))"

definition frame_dropna :: "nat \<Rightarrow> (nat, 'i, 'a, 'm) prog" where
  "frame_dropna df = and_then (frame_at df) (\<lambda>f. new_frame (dropna f))"

definition frame_iloc_step :: "nat \<Rightarrow> int \<Rightarrow> (nat, 'i, 'a, 'm) prog" where
  "frame_iloc_step df step =
     and_then (frame_at df) (\<lambda>f. and_then (lift (iloc_step f step)) new_frame)"

definition frame_select :: "nat \<Rightarrow> string list \<Rightarrow> (nat, 'i, 'a, 'm) prog" where
  "frame_select df names =
     and_then (frame_at df) (\<lambda>f. and_then (lift (select f names)) new_frame)"

definition getitem :: "nat \<Rightarrow> string \<Rightarrow> ('a series, 'i, 'a, 'm) prog" where
  "getitem df name =
     and_then (frame_at df)
       (\<lambda>f. case col f name of None \<Rightarrow> raise (KeyError name) | Some v \<Rightarrow> return v)"

definition setitem :: "nat \<Rightarrow> string \<Rightarrow> 'a series \<Rightarrow> (unit, 'i, 'a, 'm) prog" where
  "setitem df name v =
     (\<lambda>w. (Inr (), w\<lparr>objs := (objs w)[df := set_col (objs w ! df) name v]\<rparr>))"

text \<open>\<^verbatim>\<open>pd.DataFrame({name: values}, index=index)\<close>: the lengths must agree.\<close>

definition DataFrame :: "string \<Rightarrow> 'a series \<Rightarrow> 'i list \<Rightarrow> (nat, 'i, 'a, 'm) prog" where
  "DataFrame name values idx =
     (if length values \<noteq> length idx
      then raise (ValueError ''Length of values does not match length of index'')
      else new_frame \<lparr>index = idx, columns = [(name, values)]\<rparr>)"

definition window_points_of :: "('i, 'a, 'm) ext \<Rightarrow> (int, 'i, 'a, 'm) prog" where
  "window_points_of E =
     (\<lambda>w. lift (timedelta_ratio E (self_volatility_window (self w))
                   (self_candle_interval (self w))) w)"

text \<open>The estimator: each call is recorded before its outcome is known. \<^verbatim>\<open>fit\<close>
  replaces the estimator of the wrapper.\<close>

definition model_fit :: "('i, 'a, 'm) ext \<Rightarrow> nat \<Rightarrow> 'a series \<Rightarrow> (unit, 'i, 'a, 'm) prog" where
  "model_fit E features target =
     (\<lambda>w. let X = objs w ! features;
               w' = w\<lparr>calls := calls w @ [Fit_call X target]\<rparr>
           in case fit E (model (self w)) X target of
                Inl e \<Rightarrow> (Inl e, w')
              | Inr m \<Rightarrow> (Inr (), w'\<lparr>self := (self w)\<lparr>model := m\<rparr>\<rparr>))"

definition model_predict :: "('i, 'a, 'm) ext \<Rightarrow> nat \<Rightarrow> ('a series, 'i, 'a, 'm) prog" where
  "model_predict E features =
     (\<lambda>w. let X = objs w ! features;
               w' = w\<lparr>calls := calls w @ [Predict_call X]\<rparr>
           in (predict E (model (self w)) X, w'))"

definition self_save :: "('i, 'a, 'm) ext \<Rightarrow> (unit, 'i, 'a, 'm) prog" where
  "self_save E =
     (\<lambda>w. let w' = w\<lparr>calls := calls w @ [Save_call]\<rparr>
           in case save E (model_name (self w)) (model (self w)) of
                Some e \<Rightarrow> (Inl e, w')
              | None \<Rightarrow> (Inr (), w'))"

subsection \<open>The wrapper's methods\<close>

text \<open>\<^verbatim>\<open>__init__\<close>.\<close>

definition init :: "('i, 'a, 'm) ext \<Rightarrow> string \<Rightarrow> RfregressorConfig \<Rightarrow> bool \<Rightarrow> 'm wrapper" where
  "init E name cfg dbg =
     \<lparr>model_name = name,
      config = cfg,
      model = RandomForestRegressor E (n_estimators cfg) (random_state cfg) (n_jobs cfg),
      self_candle_interval = candle_interval cfg,
      self_volatility_window = volatility_window cfg,
      debug = dbg\<rparr>"

text \<open>\<^verbatim>\<open>str(i)\<close> for the loop counter, in decimal.\<close>

fun str :: "nat \<Rightarrow> string" where
  "str n = (if n < 10 then [''0123456789'' ! n] else str (n div 10) @ [''0123456789'' ! (n mod 10)])"

declare str.simps [simp del]

text \<open>The body of \<^verbatim>\<open>for i in range(1, 5)\<close>, which both \<^verbatim>\<open>_calculate_volatility_features\<close>
  and \<^verbatim>\<open>inference\<close> run; the list is the range, the accumulator the list of feature
  names.\<close>

fun lag_loop :: "nat \<Rightarrow> nat list \<Rightarrow> string list \<Rightarrow> (string list, 'i, 'a, 'm) prog" where
  "lag_loop df [] list_of_features = return list_of_features"
| "lag_loop df (i # rest) list_of_features =
     (let log_return_lag_name = ''log_return_t-'' @ str i;
          list_of_features = list_of_features @ [log_return_lag_name]
      in and_then (getitem df ''log_returns'') (\<lambda>log_returns.
         and_then (setitem df log_return_lag_name (shift (int i) log_returns)) (\<lambda>_.
         (let volume_lag_name = ''volume_t-'' @ str i;
              list_of_features = list_of_features @ [volume_lag_name]
          in and_then (getitem df ''volume'') (\<lambda>volume.
             and_then (setitem df volume_lag_name (shift (int i) volume)) (\<lambda>_.
             lag_loop df rest list_of_features))))))"

text \<open>\<^verbatim>\<open>_calculate_volatility_features(df)\<close>: the address of \<^verbatim>\<open>df_sampled\<close> and the
  list of feature names.\<close>

definition calculate_volatility_features ::
  "('i, 'a, 'm) ext \<Rightarrow> nat \<Rightarrow> (nat \<times> string list, 'i, 'a, 'm) prog" where
  "calculate_volatility_features E df_in =
     and_then (frame_copy df_in) (\<lambda>df.
     and_then (frame_fillna_ffill df) (\<lambda>df.
     and_then (frame_fillna_bfill df) (\<lambda>df.
     and_then (window_points_of E) (\<lambda>window_points.
     and_then (getitem df ''close'') (\<lambda>close.
     and_then (setitem df ''log_returns'' (np_log_div E close (shift 1 close))) (\<lambda>_.
     and_then (lag_loop df [1..<5] []) (\<lambda>list_of_features.
     and_then (getitem df ''close'') (\<lambda>close.
     and_then (setitem df ''SMA_10'' (rolling_mean E 10 close)) (\<lambda>_.
     and_then (getitem df ''close'') (\<lambda>close.
     and_then (setitem df ''EMA_10'' (ewm_mean E close)) (\<lambda>_.
     (let list_of_features = list_of_features @ [''SMA_10'', ''EMA_10'']
      in and_then (getitem df ''close'') (\<lambda>close.
         and_then (lift (calculate_non_overlapping_volatility E close window_points)) (\<lambda>volatility.
         and_then (setitem df ''current_volatility'' volatility) (\<lambda>_.
         (let list_of_features = list_of_features @ [''current_volatility'']
          in and_then (getitem df ''current_volatility'') (\<lambda>current_volatility.
             and_then (setitem df ''target_volatility'' (shift (- 5) current_volatility)) (\<lambda>_.
             and_then (frame_iloc_step df window_points) (\<lambda>view.
             and_then (frame_copy view) (\<lambda>df_sampled.
             return (df_sampled, list_of_features)))))))))))))))))))))"

text \<open>\<^verbatim>\<open>train(data)\<close>.\<close>

definition train :: "('i, 'a, 'm) ext \<Rightarrow> nat \<Rightarrow> (unit, 'i, 'a, 'm) prog" where
  "train E data =
     and_then (calculate_volatility_features E data) (\<lambda>r.
     (let df_sampled = fst r; list_of_features = snd r
      in and_then (frame_dropna df_sampled) (\<lambda>df_sampled.
         (let list_of_features = list_of_features @ [''close'']
          in and_then (frame_select df_sampled list_of_features) (\<lambda>features.
             and_then (getitem df_sampled ''target_volatility'') (\<lambda>target.
             and_then (model_fit E features target) (\<lambda>_.
             self_save E)))))))"

text \<open>\<^verbatim>\<open>inference(input_data)\<close>: the address of the table of predictions.\<close>

definition inference :: "('i, 'a, 'm) ext \<Rightarrow> nat \<Rightarrow> (nat, 'i, 'a, 'm) prog" where
  "inference E input_data =
     and_then (frame_copy input_data) (\<lambda>df.
     and_then (frame_fillna_ffill df) (\<lambda>df.
     and_then (frame_fillna_bfill df) (\<lambda>df.
     and_then (window_points_of E) (\<lambda>window_points.
     and_then (getitem df ''close'') (\<lambda>close.
     and_then (setitem df ''log_returns'' (np_log_div E close (shift 1 close))) (\<lambda>_.
     and_then (lag_loop df [1..<5] []) (\<lambda>list_of_features.
     and_then (getitem df ''close'') (\<lambda>close.
     and_then (setitem df ''SMA_10'' (rolling_mean E 10 close)) (\<lambda>_.
     and_then (getitem df ''close'') (\<lambda>close.
     and_then (setitem df ''EMA_10'' (ewm_mean E close)) (\<lambda>_.
     (let list_of_features = list_of_features @ [''SMA_10'', ''EMA_10'']
      in and_then (getitem df ''close'') (\<lambda>close.
         and_then (lift (calculate_non_overlapping_volatility E close window_points)) (\<lambda>volatility.
         and_then (setitem df ''current_volatility'' volatility) (\<lambda>_.
         (let list_of_features = list_of_features @ [''current_volatility''];
              list_of_features = list_of_features @ [''close'']
          in and_then (frame_select df list_of_features) (\<lambda>selected.
             and_then (frame_fillna_value selected (zero E)) (\<lambda>features.
             and_then (model_predict E features) (\<lambda>predictions.
             and_then (frame_at features) (\<lambda>f.
             DataFrame ''prediction'' predictions (index f)))))))))))))))))))))"

text \<open>\<^verbatim>\<open>forecast(steps)\<close>: a table of its own, with the integer \<open>0\<close> in every row and
  the default index \<open>0, 1, ...\<close>; \<^verbatim>\<open>[0] * steps\<close> is empty for a negative \<open>steps\<close>.\<close>

definition forecast :: "int \<Rightarrow> ((nat, int) frame, 'i, 'a, 'm) prog" where
  "forecast steps =
     return \<lparr>index = [0..<nat steps], columns = [(''forecast'', replicate (nat steps) (Some 0))]\<rparr>"

subsection \<open>Where the tables of a call are\<close>

text \<open>
  A call that starts in the world \<open>w\<close> appends its tables to the store in the order in
  which it builds them. In \<^verbatim>\<open>_calculate_volatility_features\<close> and in \<^verbatim>\<open>inference\<close> the
  copy, the forward-filled and the backward-filled table come first; the last of the
  three is the one the local variable \<^verbatim>\<open>df\<close> refers to from then on.
  \<^verbatim>\<open>_calculate_volatility_features\<close> then builds the view \<^verbatim>\<open>df.iloc[::window_points]\<close>
  and its copy \<^verbatim>\<open>df_sampled\<close>, and \<^verbatim>\<open>train\<close> the table without missing rows and the
  table of the selected features. \<^verbatim>\<open>inference\<close> builds the selected columns, the
  features filled with zero and the predictions.
\<close>

definition local_df :: "('i, 'a, 'm) world \<Rightarrow> nat" where
  "local_df w = length (objs w) + 2"

definition local_df_sampled :: "('i, 'a, 'm) world \<Rightarrow> nat" where
  "local_df_sampled w = length (objs w) + 4"

definition local_dropped :: "('i, 'a, 'm) world \<Rightarrow> nat" where
  "local_dropped w = length (objs w) + 5"

definition local_features :: "('i, 'a, 'm) world \<Rightarrow> nat" where
  "local_features w = length (objs w) + 4"

text \<open>The columns that the lines 46 to 56 of \<^verbatim>\<open>_calculate_volatility_features\<close> and
  the lines 90 to 100 of \<^verbatim>\<open>inference\<close> assign, in the order of the assignments, from
  the close and volume columns of the filled table. It is used to state what the two
  methods leave in \<^verbatim>\<open>df\<close>.\<close>

definition assigned_columns ::
  "('i, 'a, 'm) ext \<Rightarrow> 'a series \<Rightarrow> 'a series \<Rightarrow> (string \<times> 'a series) list" where
  "assigned_columns E close volume =
     (let log_returns = np_log_div E close (shift 1 close)
      in [(''log_returns'', log_returns),
          (''log_return_t-1'', shift 1 log_returns), (''volume_t-1'', shift 1 volume),
          (''log_return_t-2'', shift 2 log_returns), (''volume_t-2'', shift 2 volume),
          (''log_return_t-3'', shift 3 log_returns), (''volume_t-3'', shift 3 volume),
          (''log_return_t-4'', shift 4 log_returns), (''volume_t-4'', shift 4 volume),
          (''SMA_10'', rolling_mean E 10 close),
          (''EMA_10'', ewm_mean E close)])"

text \<open>What a call needs to get through the computation of the features: \<open>df\<close> refers
  to a table of the store, the table is a DataFrame with a close and a volume column,
  and the durations of the wrapper give the window size \<open>wp\<close>.\<close>

definition ready :: "('i, 'a, 'm) ext \<Rightarrow> ('i, 'a, 'm) world \<Rightarrow> nat \<Rightarrow> int \<Rightarrow> bool" where
  "ready E w df wp \<longleftrightarrow>
     df < length (objs w) \<and>
     wf_frame (objs w ! df) \<and>
     col (objs w ! df) ''close'' \<noteq> None \<and>
     col (objs w ! df) ''volume'' \<noteq> None \<and>
     timedelta_ratio E (self_volatility_window (self w)) (self_candle_interval (self w)) = Inr wp"

text \<open>The names that \<^verbatim>\<open>_calculate_volatility_features\<close> returns.\<close>

definition returned_names :: "string list" where
  "returned_names =
     [''log_return_t-1'', ''volume_t-1'', ''log_return_t-2'', ''volume_t-2'',
      ''log_return_t-3'', ''volume_t-3'', ''log_return_t-4'', ''volume_t-4'',
      ''SMA_10'', ''EMA_10'', ''current_volatility'']"

text \<open>The cells of a series or of a table that are all there.\<close>

definition no_missing :: "'a series \<Rightarrow> bool" where
  "no_missing xs = list_all (\<lambda>x. x \<noteq> None) xs"

definition frame_no_missing :: "('i, 'a) frame \<Rightarrow> bool" where
  "frame_no_missing df = list_all (\<lambda>c. no_missing (snd c)) (columns df)"

subsection \<open>An instance of the libraries\<close>

text \<open>
  To run the methods on concrete bars the kernels are read as the constructors of a
  term language: a value records how it was computed. The standard deviation follows
  pandas in being missing for fewer than two observations. The estimator follows
  scikit-learn in refusing an empty table and in refusing to predict before it is
  fitted; a prediction records the row it was made from.
\<close>

datatype sym =
    Num int
  | Log_ratio sym sym
  | Std "sym list"
  | Mean "sym list"
  | Ewm nat sym sym
  | Prediction "sym list"

datatype forest =
    Unfitted int int int
  | Fitted "(nat, sym) frame" "sym series"

definition rows_of :: "('i, 'a) frame \<Rightarrow> 'a option list list" where
  "rows_of df = map (\<lambda>t. map (\<lambda>c. snd c ! t) (columns df)) [0..<length (index df)]"

definition minutes :: "string \<Rightarrow> int option" where
  "minutes s = map_of [(''1min'', 1), (''2min'', 2), (''3min'', 3), (''5min'', 5), (''10min'', 10)] s"

definition sym_ext :: "(nat, sym, forest) ext" where
  "sym_ext =
     \<lparr>log_ratio = (\<lambda>x y. Some (Log_ratio x y)),
      std_of = (\<lambda>xs. if length xs < 2 then None else Some (Std xs)),
      mean_of = (\<lambda>k xs. Some (Mean (present (drop (length xs - k) xs)))),
      ewm_combine = (\<lambda>g y x. Some (Ewm g y x)),
      zero = Num 0,
      timedelta_ratio = (\<lambda>a b. case (minutes a, minutes b) of
          (Some x, Some y) \<Rightarrow> Inr (x div y)
        | _ \<Rightarrow> Inl (LibraryError ''invalid unit abbreviation'')),
      RandomForestRegressor = Unfitted,
      fit = (\<lambda>m X y. if index X = [] then Inl (LibraryError ''Found array with 0 sample(s)'')
                      else Inr (Fitted X y)),
      predict = (\<lambda>m X. case m of
          Unfitted a b c \<Rightarrow> Inl (LibraryError ''NotFittedError'')
        | Fitted X0 y0 \<Rightarrow>
            if index X = [] then Inl (LibraryError ''Found array with 0 sample(s)'')
            else Inr (map (\<lambda>row. Some (Prediction (present row))) (rows_of X))),
      save = (\<lambda>name m. None)\<rparr>"

text \<open>The same libraries with an estimator that accepts every table, also an empty
  one.\<close>

definition lenient_ext :: "(nat, sym, forest) ext" where
  "lenient_ext = sym_ext\<lparr>fit := (\<lambda>m X y. Inr (Fitted X y))\<rparr>"

text \<open>Bars with the closes \<open>100 + t * t\<close> and the volumes \<open>10 + t\<close>, labelled
  \<open>0, 1, ...\<close>, and the world in which a fresh wrapper with the constructor's
  configuration holds one such table.\<close>

definition bars :: "nat \<Rightarrow> (nat, sym) frame" where
  "bars n =
     \<lparr>index = [0..<n],
      columns = [(''close'', map (\<lambda>t. Some (Num (100 + int t * int t))) [0..<n]),
                 (''volume'', map (\<lambda>t. Some (Num (10 + int t))) [0..<n])]\<rparr>"

definition world_of :: "(nat, sym) frame \<Rightarrow> (nat, sym, forest) world" where
  "world_of df =
     \<lparr>self = init sym_ext ''rfregressor_volatility'' RfregressorConfig_init False,
      objs = [df],
      calls = []\<rparr>"

text \<open>The same world once the estimator has been fitted on some table.\<close>

definition fitted_world_of :: "(nat, sym) frame \<Rightarrow> (nat, sym, forest) world" where
  "fitted_world_of df =
     (world_of df)\<lparr>self := (self (world_of df))\<lparr>model := Fitted (bars 1) [Some (Num 0)]\<rparr>\<rparr>"

text \<open>The world of a fresh wrapper that is given the constructor's configuration
  with another \<open>target_shift\<close>:
  \<^verbatim>\<open>cfg = RfregressorConfig(); cfg.target_shift = k; RfregressorVolatilityModel(config=cfg)\<close>.\<close>

definition world_with_target_shift :: "int \<Rightarrow> (nat, sym) frame \<Rightarrow> (nat, sym, forest) world" where
  "world_with_target_shift k df =
     \<lparr>self = init sym_ext ''rfregressor_volatility''
               (RfregressorConfig_init\<lparr>target_shift := k\<rparr>) False,
      objs = [df],
      calls = []\<rparr>"

section \<open>Properties\<close>

subsection \<open>Series\<close>

lemma length_iloc_assign:
  "s \<le> e \<Longrightarrow> length (iloc_assign xs s e v) = length xs"
  by (auto simp: iloc_assign_def min_def)

lemma nth_iloc_assign:
  "s \<le> e \<Longrightarrow> i < length xs \<Longrightarrow>
   iloc_assign xs s e v ! i = (if s \<le> i \<and> i < e then v else xs ! i)"
  by (auto simp: iloc_assign_def nth_append min_def)

lemma length_volatility_loop:
  "length (volatility_loop E lr w s v) = length v"
proof (induction E lr w s v rule: volatility_loop.induct)
  case (1 E lr w s v)
  show ?case
    using "1.IH" [OF _ refl _ refl refl]
    by (subst volatility_loop.simps) (simp add: Let_def length_iloc_assign)
qed

lemma volatility_loop_nth:
  "0 < w \<Longrightarrow> length v = length lr \<Longrightarrow> i < length lr \<Longrightarrow>
   volatility_loop E lr w s v ! i =
     (if s \<le> i \<and> s + ((i - s) div w + 1) * w \<le> length lr
      then series_std E (iloc_slice lr (s + ((i - s) div w) * w) (s + ((i - s) div w + 1) * w))
      else v ! i)"
proof (induction E lr w s v rule: volatility_loop.induct)
  case (1 E lr w s v)
  show ?case
  proof (cases "length lr \<le> s")
    case True
    with "1.prems" show ?thesis by (subst volatility_loop.simps) simp
  next
    case outside: False
    show ?thesis
    proof (cases "s + w > length lr")
      case True
      have "s \<le> i \<Longrightarrow> s + w \<le> s + ((i - s) div w + 1) * w" by simp
      with True outside "1.prems" show ?thesis
        by (subst volatility_loop.simps) (auto simp: Let_def)
    next
      case False
      let ?vol = "series_std E (iloc_slice lr s (s + w))"
      let ?v' = "iloc_assign v s (s + w) ?vol"
      have step: "volatility_loop E lr w s v = volatility_loop E lr w (s + w) ?v'"
        using outside False "1.prems"(1) by (subst volatility_loop.simps) (simp add: Let_def)
      have len: "length ?v' = length lr"
        using "1.prems"(2) by (simp add: length_iloc_assign)
      have ih: "volatility_loop E lr w (s + w) ?v' ! i =
        (if s + w \<le> i \<and> s + w + ((i - (s + w)) div w + 1) * w \<le> length lr
         then series_std E (iloc_slice lr (s + w + ((i - (s + w)) div w) * w)
                (s + w + ((i - (s + w)) div w + 1) * w))
         else ?v' ! i)"
        using "1.IH" [OF _ refl _ refl refl "1.prems"(1) len "1.prems"(3)] outside False "1.prems"(1)
        by simp
      consider (before) "i < s" | (inside) "s \<le> i" "i < s + w" | (after) "s + w \<le> i"
        by linarith
      then show ?thesis
      proof cases
        case before
        then show ?thesis
          using step ih "1.prems" by (simp add: nth_iloc_assign)
      next
        case inside
        then have "(i - s) div w = 0" by simp
        then show ?thesis
          using step ih inside False "1.prems" by (simp add: nth_iloc_assign)
      next
        case after
        then have "(i - s) div w = Suc ((i - (s + w)) div w)"
          using "1.prems"(1) by (simp add: le_div_geq)
        then show ?thesis
          using step ih after "1.prems" by (simp add: algebra_simps nth_iloc_assign)
      qed
    qed
  qed
qed

lemma length_shift: "length (shift k xs) = length xs"
  by (auto simp: shift_def min_def)

lemma nth_shift_forward:
  "0 \<le> k \<Longrightarrow> t < length xs \<Longrightarrow>
   shift k xs ! t = (if nat k \<le> t then xs ! (t - nat k) else None)"
  by (auto simp: shift_def nth_append)

lemma nth_shift_backward:
  "k < 0 \<Longrightarrow> t < length xs \<Longrightarrow>
   shift k xs ! t = (if t + nat (- k) < length xs then xs ! (t + nat (- k)) else None)"
proof -
  assume k: "k < 0" and t: "t < length xs"
  show ?thesis
  proof (cases "t + nat (- k) < length xs")
    case True
    then have "t < length xs - nat (- k)" by linarith
    then show ?thesis using True k by (simp add: shift_def nth_append add.commute)
  next
    case False
    then have "t - (length xs - nat (- k)) < min (nat (- k)) (length xs)"
      using t k by linarith
    moreover have "\<not> t < length xs - nat (- k)" using False by linarith
    ultimately show ?thesis using False k t by (simp add: shift_def nth_append)
  qed
qed

lemma length_np_log_div: "length (np_log_div E a b) = min (length a) (length b)"
  by (simp add: np_log_div_def)

lemma length_calculate_log_returns: "length (calculate_log_returns E series) = length series"
  by (simp add: calculate_log_returns_def length_np_log_div length_shift)

lemma nth_calculate_log_returns:
  "t < length series \<Longrightarrow>
   calculate_log_returns E series ! t =
     (if t = 0 then None else log_div E (series ! t) (series ! (t - 1)))"
  by (simp add: calculate_log_returns_def np_log_div_def length_shift nth_shift_forward log_div_def
      split: option.splits)

lemma volatility_from_start:
  assumes "0 < w" "i < length lr"
  shows "volatility_loop E lr w 0 (replicate (length lr) None) ! i =
     (if (i div w + 1) * w \<le> length lr
      then series_std E (iloc_slice lr (i div w * w) ((i div w + 1) * w))
      else None)"
  using volatility_loop_nth [of w "replicate (length lr) None" lr i E 0] assms
  by simp

lemma sym_ext_simps:
  "log_ratio sym_ext x y = Some (Log_ratio x y)"
  "std_of sym_ext xs = (if length xs < 2 then None else Some (Std xs))"
  "mean_of sym_ext k ys = Some (Mean (present (drop (length ys - k) ys)))"
  "ewm_combine sym_ext g y x = Some (Ewm g y x)"
  "zero sym_ext = Num 0"
  "RandomForestRegressor sym_ext a b c = Unfitted a b c"
  "save sym_ext name m = None"
  by (simp_all add: sym_ext_def)

lemma present_simps:
  "present [] = []"
  "present (None # xs) = present xs"
  "present (Some x # xs) = x # present xs"
  by (simp_all add: present_def List.map_filter_def)

subsection \<open>The volatility of non-overlapping windows\<close>

text \<open>
  Claim C1. For a positive \<open>window_points\<close> the volatility computation returns a
  series as long as the prices. Every position of a complete block
  \<open>k * window_points ..< (k + 1) * window_points\<close> holds the same value, the standard
  deviation (pandas' \<^verbatim>\<open>std\<close>, over the values that are not missing) of the log-returns of
  the block; every position after the last complete block is missing; a series shorter
  than one block is missing everywhere. The log-return at \<open>t\<close> is missing at \<open>t = 0\<close>
  and \<^verbatim>\<open>log(series[t] / series[t - 1])\<close> elsewhere.
\<close>

theorem volatility_blocks:
  assumes "0 < window_points"
  shows "\<exists>volatility.
     calculate_non_overlapping_volatility E series window_points = Inr volatility \<and>
     length volatility = length series \<and>
     (\<forall>k i. (k + 1) * nat window_points \<le> length series \<and>
            k * nat window_points \<le> i \<and> i < (k + 1) * nat window_points \<longrightarrow>
        volatility ! i =
          series_std E (iloc_slice (calculate_log_returns E series)
            (k * nat window_points) ((k + 1) * nat window_points))) \<and>
     (\<forall>i. length series div nat window_points * nat window_points \<le> i \<and> i < length series \<longrightarrow>
        volatility ! i = None) \<and>
     (length series < nat window_points \<longrightarrow> volatility = replicate (length series) None) \<and>
     (\<forall>t < length series. calculate_log_returns E series ! t =
        (if t = 0 then None else log_div E (series ! t) (series ! (t - 1))))"
proof -
  define w where "w = nat window_points"
  define lr where "lr = calculate_log_returns E series"
  define vol where "vol = volatility_loop E lr w 0 (replicate (length series) None)"
  have w: "0 < w" using assms by (simp add: w_def)
  have len_lr: "length lr = length series"
    by (simp add: lr_def length_calculate_log_returns)
  have run: "calculate_non_overlapping_volatility E series window_points = Inr vol"
    using assms by (simp add: calculate_non_overlapping_volatility_def vol_def lr_def w_def Let_def)
  have len: "length vol = length series"
    by (simp add: vol_def length_volatility_loop)
  have at: "vol ! i =
     (if (i div w + 1) * w \<le> length series
      then series_std E (iloc_slice lr (i div w * w) ((i div w + 1) * w)) else None)"
    if "i < length series" for i
    using volatility_from_start [OF w, of i lr E] that len_lr by (simp add: vol_def)
  have blocks: "vol ! i = series_std E (iloc_slice lr (k * w) ((k + 1) * w))"
    if "(k + 1) * w \<le> length series" "k * w \<le> i" "i < (k + 1) * w" for k i
  proof -
    have "i div w = k"
      using that w by (metis div_nat_eqI mult.commute Suc_eq_plus1)
    moreover have "i < length series" using that by linarith
    ultimately show ?thesis using at that by simp
  qed
  have tail: "vol ! i = None"
    if "length series div w * w \<le> i" "i < length series" for i
  proof -
    have "length series div w \<le> i div w"
      using that w by (metis div_le_mono div_mult_self_is_m)
    then have "length series div w < i div w + 1" by simp
    then have "length series < (i div w + 1) * w"
      using w by (metis div_less_iff_less_mult)
    then show ?thesis using at that by simp
  qed
  have short: "vol = replicate (length series) None" if "length series < w"
  proof (rule nth_equalityI)
    show "length vol = length (replicate (length series) None)" using len by simp
  next
    fix i assume "i < length vol"
    then have i: "i < length series" using len by simp
    then have "length series < (i div w + 1) * w" using that by simp
    then show "vol ! i = replicate (length series) None ! i" using at i by simp
  qed
  show ?thesis
    using run len blocks tail short nth_calculate_log_returns
    unfolding w_def lr_def by blast
qed

theorem volatility_blocks_witness:
  "(0::int) < 3 \<and>
   (\<exists>volatility.
      calculate_non_overlapping_volatility sym_ext
        [Some (Num 100), Some (Num 101), Some (Num 104), Some (Num 109), Some (Num 116),
         Some (Num 125), Some (Num 136)] 3 = Inr volatility \<and>
      length volatility = 7 \<and>
      volatility ! 4 = Some (Std [Log_ratio (Num 109) (Num 104), Log_ratio (Num 116) (Num 109),
                                   Log_ratio (Num 125) (Num 116)]) \<and>
      volatility ! 1 = Some (Std [Log_ratio (Num 101) (Num 100), Log_ratio (Num 104) (Num 101)]) \<and>
      volatility ! 6 = None)"
proof -
  let ?series = "[Some (Num 100), Some (Num 101), Some (Num 104), Some (Num 109), Some (Num 116),
         Some (Num 125), Some (Num 136)]"
  have lr: "calculate_log_returns sym_ext ?series =
      [None, Some (Log_ratio (Num 101) (Num 100)), Some (Log_ratio (Num 104) (Num 101)),
       Some (Log_ratio (Num 109) (Num 104)), Some (Log_ratio (Num 116) (Num 109)),
       Some (Log_ratio (Num 125) (Num 116)), Some (Log_ratio (Num 136) (Num 125))]"
    by (simp add: calculate_log_returns_def np_log_div_def log_div_def shift_def sym_ext_simps)
  from volatility_blocks [of 3 sym_ext ?series]
  obtain volatility where
    run: "calculate_non_overlapping_volatility sym_ext ?series 3 = Inr volatility"
    and len: "length volatility = length ?series"
    and blocks: "\<And>k i. (k + 1) * nat 3 \<le> length ?series \<and> k * nat 3 \<le> i \<and> i < (k + 1) * nat 3 \<Longrightarrow>
        volatility ! i = series_std sym_ext (iloc_slice (calculate_log_returns sym_ext ?series)
            (k * nat 3) ((k + 1) * nat 3))"
    and tail: "\<And>i. length ?series div nat 3 * nat 3 \<le> i \<and> i < length ?series \<Longrightarrow> volatility ! i = None"
    by auto
  have "volatility ! 4 = Some (Std [Log_ratio (Num 109) (Num 104), Log_ratio (Num 116) (Num 109),
                                   Log_ratio (Num 125) (Num 116)])"
    using blocks [of 1 4]
    by (simp add: lr iloc_slice_def series_std_def present_simps sym_ext_simps)
  moreover have "volatility ! 1 = Some (Std [Log_ratio (Num 101) (Num 100), Log_ratio (Num 104) (Num 101)])"
    using blocks [of 0 1]
    by (simp add: lr iloc_slice_def series_std_def present_simps sym_ext_simps)
  moreover have "volatility ! 6 = None"
    using tail [of 6] by simp
  ultimately show ?thesis using run len by simp
qed

subsection \<open>Running the statements\<close>

lemma and_then_run:
  "and_then p f w = (case p w of (Inl e, w') \<Rightarrow> (Inl e, w') | (Inr x, w') \<Rightarrow> f x w')"
  by (simp add: and_then_def)

lemma return_run: "return x w = (Inr x, w)" by (simp add: return_def)
lemma raise_run: "raise e w = (Inl e, w)" by (simp add: raise_def)
lemma lift_run: "lift r w = (case r of Inl e \<Rightarrow> (Inl e, w) | Inr x \<Rightarrow> (Inr x, w))"
  by (simp add: lift_def return_def raise_def split: sum.splits)
lemma new_frame_run: "new_frame f w = (Inr (length (objs w)), w\<lparr>objs := objs w @ [f]\<rparr>)"
  by (simp add: new_frame_def)
lemma frame_at_run: "frame_at df w = (Inr (objs w ! df), w)" by (simp add: frame_at_def)
lemma frame_copy_run: "frame_copy df w = (Inr (length (objs w)), w\<lparr>objs := objs w @ [objs w ! df]\<rparr>)"
  by (simp add: frame_copy_def and_then_run frame_at_run new_frame_run)
lemma frame_fillna_ffill_run:
  "frame_fillna_ffill df w = (Inr (length (objs w)), w\<lparr>objs := objs w @ [map_columns ffill (objs w ! df)]\<rparr>)"
  by (simp add: frame_fillna_ffill_def and_then_run frame_at_run new_frame_run)
lemma frame_fillna_bfill_run:
  "frame_fillna_bfill df w = (Inr (length (objs w)), w\<lparr>objs := objs w @ [map_columns bfill (objs w ! df)]\<rparr>)"
  by (simp add: frame_fillna_bfill_def and_then_run frame_at_run new_frame_run)
lemma frame_fillna_value_run:
  "frame_fillna_value df v w = (Inr (length (objs w)),
     w\<lparr>objs := objs w @ [map_columns (fill_zero v) (objs w ! df)]\<rparr>)"
  by (simp add: frame_fillna_value_def and_then_run frame_at_run new_frame_run)
lemma frame_dropna_run:
  "frame_dropna df w = (Inr (length (objs w)), w\<lparr>objs := objs w @ [dropna (objs w ! df)]\<rparr>)"
  by (simp add: frame_dropna_def and_then_run frame_at_run new_frame_run)
lemma getitem_run:
  "getitem df name w = (case col (objs w ! df) name of None \<Rightarrow> (Inl (KeyError name), w) | Some v \<Rightarrow> (Inr v, w))"
  by (simp add: getitem_def and_then_run frame_at_run return_run raise_run split: option.splits)
lemma setitem_run:
  "setitem df name v w = (Inr (), w\<lparr>objs := (objs w)[df := set_col (objs w ! df) name v]\<rparr>)"
  by (simp add: setitem_def)
lemma frame_iloc_step_run:
  "frame_iloc_step df step w = (case iloc_step (objs w ! df) step of Inl e \<Rightarrow> (Inl e, w)
     | Inr f \<Rightarrow> (Inr (length (objs w)), w\<lparr>objs := objs w @ [f]\<rparr>))"
  by (simp add: frame_iloc_step_def and_then_run frame_at_run lift_run new_frame_run split: sum.splits)
lemma frame_select_run:
  "frame_select df names w = (case select (objs w ! df) names of Inl e \<Rightarrow> (Inl e, w)
     | Inr f \<Rightarrow> (Inr (length (objs w)), w\<lparr>objs := objs w @ [f]\<rparr>))"
  by (simp add: frame_select_def and_then_run frame_at_run lift_run new_frame_run split: sum.splits)
lemma window_points_of_run:
  "window_points_of E w = (case timedelta_ratio E (self_volatility_window (self w)) (self_candle_interval (self w)) of
      Inl e \<Rightarrow> (Inl e, w) | Inr x \<Rightarrow> (Inr x, w))"
  by (simp add: window_points_of_def lift_run)
lemma DataFrame_run:
  "DataFrame name values idx w =
     (if length values \<noteq> length idx
      then (Inl (ValueError ''Length of values does not match length of index''), w)
      else (Inr (length (objs w)), w\<lparr>objs := objs w @ [\<lparr>index = idx, columns = [(name, values)]\<rparr>]\<rparr>))"
  by (simp add: DataFrame_def raise_run new_frame_run)

lemmas run_simps = and_then_run return_run raise_run lift_run new_frame_run frame_at_run
  frame_copy_run frame_fillna_ffill_run frame_fillna_bfill_run frame_fillna_value_run
  frame_dropna_run getitem_run setitem_run
  frame_iloc_step_run frame_select_run window_points_of_run DataFrame_run

lemma map_of_set_column:
  "map_of (set_column name v cs) m = (if m = name then Some v else map_of cs m)"
  by (induction cs) auto

lemma col_set_col: "col (set_col f name v) m = (if m = name then Some v else col f m)"
  by (simp add: col_def set_col_def map_of_set_column)

lemma col_map_columns: "col (map_columns g f) name = map_option g (col f name)"
proof -
  have "map_of (map (\<lambda>c. (fst c, g (snd c))) cs) name = map_option g (map_of cs name)" for cs
    by (induction cs) auto
  then show ?thesis by (simp add: col_def map_columns_def)
qed

lemma upt_1_5: "[1..<5] = [1, 2, 3, 4::nat]"
  by (simp add: upt_rec)

lemma str_digits: "str (Suc 0) = ''1''" "str 2 = ''2''" "str 3 = ''3''" "str 4 = ''4''"
  by (simp_all add: str.simps)

lemma model_fit_run:
  "model_fit E features target w =
     (case fit E (model (self w)) (objs w ! features) target of
        Inl e \<Rightarrow> (Inl e, w\<lparr>calls := calls w @ [Fit_call (objs w ! features) target]\<rparr>)
      | Inr m \<Rightarrow> (Inr (), w\<lparr>calls := calls w @ [Fit_call (objs w ! features) target],
                              self := (self w)\<lparr>model := m\<rparr>\<rparr>))"
  by (simp add: model_fit_def Let_def split: sum.splits)

lemma model_predict_run:
  "model_predict E features w =
     (predict E (model (self w)) (objs w ! features),
      w\<lparr>calls := calls w @ [Predict_call (objs w ! features)]\<rparr>)"
  by (simp add: model_predict_def Let_def)

lemma self_save_run:
  "self_save E w =
     (case save E (model_name (self w)) (model (self w)) of
        Some e \<Rightarrow> (Inl e, w\<lparr>calls := calls w @ [Save_call]\<rparr>)
      | None \<Rightarrow> (Inr (), w\<lparr>calls := calls w @ [Save_call]\<rparr>))"
  by (simp add: self_save_def Let_def split: option.splits)

lemmas exec_simps = run_simps str_digits col_set_col col_map_columns Let_def nth_append
  list_update_append assign_all_def assigned_columns_def fill_both_def

lemma features_run:
  assumes "df_in < length (objs w0)"
    and "col (objs w0 ! df_in) ''close'' = Some c0"
    and "col (objs w0 ! df_in) ''volume'' = Some v0"
    and "timedelta_ratio E (self_volatility_window (self w0)) (self_candle_interval (self w0)) = Inr wp"
    and "calculate_non_overlapping_volatility E (fill_both c0) wp = Inr cv"
    and "F = assign_all (assigned_columns E (fill_both c0) (fill_both v0) @
               [(''current_volatility'', cv), (''target_volatility'', shift (- 5) cv)])
             (map_columns bfill (map_columns ffill (objs w0 ! df_in)))"
    and "iloc_step F wp = Inr S"
  shows "calculate_volatility_features E df_in w0 =
    (Inr (length (objs w0) + 4,
       [''log_return_t-1'', ''volume_t-1'', ''log_return_t-2'', ''volume_t-2'',
        ''log_return_t-3'', ''volume_t-3'', ''log_return_t-4'', ''volume_t-4'',
        ''SMA_10'', ''EMA_10'', ''current_volatility'']),
     w0\<lparr>objs := objs w0 @
        [objs w0 ! df_in, map_columns ffill (objs w0 ! df_in), F, S, S]\<rparr>)"
  unfolding calculate_volatility_features_def upt_1_5
  using assms by (simp add: exec_simps)

lemma features_fail_ratio:
  assumes "timedelta_ratio E (self_volatility_window (self w0)) (self_candle_interval (self w0)) = Inl e"
  shows "calculate_volatility_features E df_in w0 =
    (Inl e, w0\<lparr>objs := objs w0 @ [objs w0 ! df_in, map_columns ffill (objs w0 ! df_in),
        map_columns bfill (map_columns ffill (objs w0 ! df_in))]\<rparr>)"
  unfolding calculate_volatility_features_def upt_1_5
  using assms by (simp add: exec_simps)

lemma features_fail_close:
  assumes "df_in < length (objs w0)"
    and "timedelta_ratio E (self_volatility_window (self w0)) (self_candle_interval (self w0)) = Inr wp"
    and "col (objs w0 ! df_in) ''close'' = None"
  shows "calculate_volatility_features E df_in w0 =
    (Inl (KeyError ''close''), w0\<lparr>objs := objs w0 @ [objs w0 ! df_in, map_columns ffill (objs w0 ! df_in),
        map_columns bfill (map_columns ffill (objs w0 ! df_in))]\<rparr>)"
  unfolding calculate_volatility_features_def upt_1_5
  using assms by (simp add: exec_simps)

lemma features_fail_volume:
  assumes "df_in < length (objs w0)"
    and "timedelta_ratio E (self_volatility_window (self w0)) (self_candle_interval (self w0)) = Inr wp"
    and "col (objs w0 ! df_in) ''close'' = Some c0"
    and "col (objs w0 ! df_in) ''volume'' = None"
  shows "calculate_volatility_features E df_in w0 =
    (Inl (KeyError ''volume''), w0\<lparr>objs := objs w0 @ [objs w0 ! df_in, map_columns ffill (objs w0 ! df_in),
        assign_all (take 2 (assigned_columns E (fill_both c0) []))
          (map_columns bfill (map_columns ffill (objs w0 ! df_in)))]\<rparr>)"
  unfolding calculate_volatility_features_def upt_1_5
  using assms by (simp add: exec_simps)

lemma features_fail_volatility:
  assumes "df_in < length (objs w0)"
    and "timedelta_ratio E (self_volatility_window (self w0)) (self_candle_interval (self w0)) = Inr wp"
    and "col (objs w0 ! df_in) ''close'' = Some c0"
    and "col (objs w0 ! df_in) ''volume'' = Some v0"
    and "calculate_non_overlapping_volatility E (fill_both c0) wp = Inl e"
  shows "calculate_volatility_features E df_in w0 =
    (Inl e, w0\<lparr>objs := objs w0 @ [objs w0 ! df_in, map_columns ffill (objs w0 ! df_in),
        assign_all (assigned_columns E (fill_both c0) (fill_both v0))
          (map_columns bfill (map_columns ffill (objs w0 ! df_in)))]\<rparr>)"
  unfolding calculate_volatility_features_def upt_1_5
  using assms by (simp add: exec_simps)

lemma train_after_features:
  assumes "calculate_volatility_features E data w0 = (Inr (s, names), w1)"
    and "select (dropna (objs w1 ! s)) (names @ [''close'']) = Inr X"
    and "col (dropna (objs w1 ! s)) ''target_volatility'' = Some y"
  shows "train E data w0 =
    (case fit E (model (self w1)) X y of
       Inl e \<Rightarrow> (Inl e, w1\<lparr>objs := objs w1 @ [dropna (objs w1 ! s), X],
                            calls := calls w1 @ [Fit_call X y]\<rparr>)
     | Inr m \<Rightarrow>
         (case save E (model_name (self w1)) m of
            Some e \<Rightarrow> Inl e
          | None \<Rightarrow> Inr (),
          w1\<lparr>objs := objs w1 @ [dropna (objs w1 ! s), X],
             calls := calls w1 @ [Fit_call X y, Save_call],
             self := (self w1)\<lparr>model := m\<rparr>\<rparr>))"
  unfolding train_def
  using assms
  by (simp add: run_simps model_fit_run self_save_run Let_def nth_append split: sum.splits option.splits)

lemma train_features_fail:
  assumes "calculate_volatility_features E data w0 = (Inl e, w1)"
  shows "train E data w0 = (Inl e, w1)"
  unfolding train_def using assms by (simp add: and_then_run)

lemma inference_run:
  assumes "df_in < length (objs w0)"
    and "col (objs w0 ! df_in) ''close'' = Some c0"
    and "col (objs w0 ! df_in) ''volume'' = Some v0"
    and "timedelta_ratio E (self_volatility_window (self w0)) (self_candle_interval (self w0)) = Inr wp"
    and "calculate_non_overlapping_volatility E (fill_both c0) wp = Inr cv"
    and "F = assign_all (assigned_columns E (fill_both c0) (fill_both v0) @
               [(''current_volatility'', cv)])
             (map_columns bfill (map_columns ffill (objs w0 ! df_in)))"
    and "select F [''log_return_t-1'', ''volume_t-1'', ''log_return_t-2'', ''volume_t-2'',
        ''log_return_t-3'', ''volume_t-3'', ''log_return_t-4'', ''volume_t-4'',
        ''SMA_10'', ''EMA_10'', ''current_volatility'', ''close''] = Inr sel"
    and "X = map_columns (fill_zero (zero E)) sel"
    and "wP = w0\<lparr>objs := objs w0 @ [objs w0 ! df_in, map_columns ffill (objs w0 ! df_in), F, sel, X],
                   calls := calls w0 @ [Predict_call X]\<rparr>"
  shows "inference E df_in w0 =
    (case predict E (model (self w0)) X of
       Inl e \<Rightarrow> (Inl e, wP)
     | Inr predictions \<Rightarrow>
         if length predictions \<noteq> length (index X)
         then (Inl (ValueError ''Length of values does not match length of index''), wP)
         else (Inr (length (objs w0) + 5),
               wP\<lparr>objs := objs wP @ [\<lparr>index = index X, columns = [(''prediction'', predictions)]\<rparr>]\<rparr>))"
  unfolding inference_def upt_1_5
  using assms by (simp add: exec_simps model_predict_run split: sum.splits)

lemma inference_fail_ratio:
  assumes "timedelta_ratio E (self_volatility_window (self w0)) (self_candle_interval (self w0)) = Inl e"
  shows "inference E df_in w0 =
    (Inl e, w0\<lparr>objs := objs w0 @ [objs w0 ! df_in, map_columns ffill (objs w0 ! df_in),
        map_columns bfill (map_columns ffill (objs w0 ! df_in))]\<rparr>)"
  unfolding inference_def upt_1_5
  using assms by (simp add: exec_simps)

lemma inference_fail_close:
  assumes "df_in < length (objs w0)"
    and "timedelta_ratio E (self_volatility_window (self w0)) (self_candle_interval (self w0)) = Inr wp"
    and "col (objs w0 ! df_in) ''close'' = None"
  shows "inference E df_in w0 =
    (Inl (KeyError ''close''), w0\<lparr>objs := objs w0 @ [objs w0 ! df_in, map_columns ffill (objs w0 ! df_in),
        map_columns bfill (map_columns ffill (objs w0 ! df_in))]\<rparr>)"
  unfolding inference_def upt_1_5
  using assms by (simp add: exec_simps)

lemma inference_fail_volume:
  assumes "df_in < length (objs w0)"
    and "timedelta_ratio E (self_volatility_window (self w0)) (self_candle_interval (self w0)) = Inr wp"
    and "col (objs w0 ! df_in) ''close'' = Some c0"
    and "col (objs w0 ! df_in) ''volume'' = None"
  shows "inference E df_in w0 =
    (Inl (KeyError ''volume''), w0\<lparr>objs := objs w0 @ [objs w0 ! df_in, map_columns ffill (objs w0 ! df_in),
        assign_all (take 2 (assigned_columns E (fill_both c0) []))
          (map_columns bfill (map_columns ffill (objs w0 ! df_in)))]\<rparr>)"
  unfolding inference_def upt_1_5
  using assms by (simp add: exec_simps)

lemma inference_fail_volatility:
  assumes "df_in < length (objs w0)"
    and "timedelta_ratio E (self_volatility_window (self w0)) (self_candle_interval (self w0)) = Inr wp"
    and "col (objs w0 ! df_in) ''close'' = Some c0"
    and "col (objs w0 ! df_in) ''volume'' = Some v0"
    and "calculate_non_overlapping_volatility E (fill_both c0) wp = Inl e"
  shows "inference E df_in w0 =
    (Inl e, w0\<lparr>objs := objs w0 @ [objs w0 ! df_in, map_columns ffill (objs w0 ! df_in),
        assign_all (assigned_columns E (fill_both c0) (fill_both v0))
          (map_columns bfill (map_columns ffill (objs w0 ! df_in)))]\<rparr>)"
  unfolding inference_def upt_1_5
  using assms by (simp add: exec_simps)

subsection \<open>Tables\<close>

lemma index_set_col: "index (set_col f name v) = index f"
  by (simp add: set_col_def)

lemma index_assign_all: "index (assign_all kvs f) = index f"
  unfolding assign_all_def by (induction kvs arbitrary: f) (simp_all add: index_set_col)

lemma index_map_columns: "index (map_columns g f) = index f"
  by (simp add: map_columns_def)

lemma col_assign_all:
  "col (assign_all kvs f) name =
     (case map_of (rev kvs) name of Some v \<Rightarrow> Some v | None \<Rightarrow> col f name)"
  unfolding assign_all_def
  by (induction kvs arbitrary: f) (auto simp: col_set_col split: option.splits)

lemma set_column_keys:
  "set (map fst (set_column name v cs)) = insert name (set (map fst cs))"
  by (induction cs) auto

lemma distinct_set_column:
  "distinct (map fst cs) \<Longrightarrow> distinct (map fst (set_column name v cs))"
proof (induction cs)
  case Nil
  then show ?case by simp
next
  case (Cons c cs)
  then show ?case
    using set_column_keys [of name v cs] by auto
qed

lemma lengths_set_column:
  "list_all (\<lambda>c. length (snd c) = n) cs \<Longrightarrow> length v = n \<Longrightarrow>
   list_all (\<lambda>c. length (snd c) = n) (set_column name v cs)"
  by (induction cs) auto

lemma wf_set_col:
  "wf_frame f \<Longrightarrow> length v = length (index f) \<Longrightarrow> wf_frame (set_col f name v)"
  by (simp add: wf_frame_def set_col_def distinct_set_column lengths_set_column)

lemma wf_assign_all:
  "wf_frame f \<Longrightarrow> list_all (\<lambda>kv. length (snd kv) = length (index f)) kvs \<Longrightarrow>
   wf_frame (assign_all kvs f)"
  unfolding assign_all_def
  by (induction kvs arbitrary: f) (simp_all add: wf_set_col index_set_col)

lemma wf_map_columns:
  "wf_frame f \<Longrightarrow> (\<And>xs. length (g xs) = length xs) \<Longrightarrow> wf_frame (map_columns g f)"
  by (simp add: wf_frame_def map_columns_def list_all_iff comp_def)

lemma col_in_columns: "col f name = Some c \<Longrightarrow> (name, c) \<in> set (columns f)"
  by (simp add: col_def map_of_SomeD)

lemma col_length: "wf_frame f \<Longrightarrow> col f name = Some c \<Longrightarrow> length c = length (index f)"
  using col_in_columns [of f name c] by (auto simp: wf_frame_def list_all_iff)

subsection \<open>Filling\<close>

lemma length_ffill_from: "length (ffill_from prev xs) = length xs"
  by (induction prev xs rule: ffill_from.induct) simp_all

lemma length_fill_both: "length (fill_both xs) = length xs"
  by (simp add: fill_both_def bfill_def ffill_def length_ffill_from)

lemma length_ffill: "length (ffill xs) = length xs"
  by (simp add: ffill_def length_ffill_from)

lemma length_bfill: "length (bfill xs) = length xs"
  by (simp add: bfill_def length_ffill_from)

lemma length_fill_zero: "length (fill_zero v xs) = length xs"
  by (simp add: fill_zero_def)

lemma nth_fill_zero:
  "t < length xs \<Longrightarrow> fill_zero v xs ! t = (case xs ! t of None \<Rightarrow> Some v | Some y \<Rightarrow> Some y)"
  by (simp add: fill_zero_def)

lemma no_missing_fill_zero: "no_missing (fill_zero v xs)"
  by (auto simp: no_missing_def fill_zero_def list_all_iff split: option.splits)

subsection \<open>Rolling and exponentially weighted means\<close>

lemma length_rolling_mean: "length (rolling_mean E k xs) = length xs"
  by (simp add: rolling_mean_def)

lemma length_ewm_from: "length (ewm_from E weighted g xs) = length xs"
  by (induction E weighted g xs rule: ewm_from.induct) simp_all

lemma length_ewm_mean: "length (ewm_mean E xs) = length xs"
  by (simp add: ewm_mean_def length_ewm_from)

subsection \<open>Sampling\<close>

lemma length_every_nth:
  "0 < step \<Longrightarrow> length (every_nth step xs) = (length xs + step - 1) div step"
proof (induction step xs rule: every_nth.induct)
  case (1 step)
  then show ?case by simp
next
  case (2 step x xs)
  have "length xs div step = (length xs - (step - 1) + step - 1) div step"
  proof (cases "step - 1 \<le> length xs")
    case True
    then have "length xs - (step - 1) + step - 1 = length xs" using "2.prems" by linarith
    then have "(length xs - (step - 1) + step - 1) div step = length xs div step"
      by (simp only:)
    then show ?thesis by (rule sym)
  next
    case False
    then have "length xs < step" "length xs - (step - 1) + step - 1 < step"
      using "2.prems" by linarith+
    then show ?thesis by simp
  qed
  moreover have "(Suc (length xs) + step - 1) div step = Suc (length xs div step)"
  proof -
    have "(length xs + step) div step = length xs div step + 1"
      using "2.prems" by (intro div_add_self2) simp
    then show ?thesis by simp
  qed
  ultimately show ?case using 2 by simp
qed

lemma nth_every_nth:
  "0 < step \<Longrightarrow> j * step < length xs \<Longrightarrow> every_nth step xs ! j = xs ! (j * step)"
proof (induction step xs arbitrary: j rule: every_nth.induct)
  case (1 step)
  then show ?case by simp
next
  case (2 step x xs)
  show ?case
  proof (cases j)
    case 0
    then show ?thesis by simp
  next
    case (Suc j')
    have bound: "step + j' * step < Suc (length xs)" using "2.prems" Suc by simp
    then have small: "j' * step < length (drop (step - 1) xs)"
      using "2.prems"(1) by (simp; linarith)
    have "every_nth step (x # xs) ! j = every_nth step (drop (step - 1) xs) ! j'"
      using Suc by simp
    also have "\<dots> = drop (step - 1) xs ! (j' * step)"
      using "2.IH" [OF "2.prems"(1) small] .
    also have "\<dots> = xs ! (step - 1 + j' * step)"
      using bound "2.prems"(1) by simp
    also have "\<dots> = (x # xs) ! (j * step)"
    proof -
      have "j * step = Suc (step - 1 + j' * step)" using Suc "2.prems"(1) by simp
      then show ?thesis by simp
    qed
    finally show ?thesis .
  qed
qed

lemma sampled_position:
  "0 < step \<Longrightarrow> j < (n + step - 1) div step \<longleftrightarrow> j * step < n" for step j n :: nat
proof -
  assume step: "0 < step"
  have "j < (n + step - 1) div step \<longleftrightarrow> Suc j \<le> (n + step - 1) div step" by linarith
  also have "\<dots> \<longleftrightarrow> Suc j * step \<le> n + step - 1"
    using step by (simp add: less_eq_div_iff_mult_less_eq)
  also have "\<dots> \<longleftrightarrow> j * step < n" using step by (simp; linarith)
  finally show ?thesis .
qed

subsection \<open>Volatility, sampling, removal of missing rows, selection\<close>

lemma volatility_returns:
  "wp \<noteq> 0 \<Longrightarrow> \<exists>cv. calculate_non_overlapping_volatility E series wp = Inr cv"
  by (simp add: calculate_non_overlapping_volatility_def Let_def)

lemma volatility_fails:
  "calculate_non_overlapping_volatility E series 0 = Inl (ValueError ''range() arg 3 must not be zero'')"
  by (simp add: calculate_non_overlapping_volatility_def Let_def)

lemma length_volatility:
  "calculate_non_overlapping_volatility E series wp = Inr cv \<Longrightarrow> length cv = length series"
  by (auto simp: calculate_non_overlapping_volatility_def Let_def length_volatility_loop
      split: if_splits)

lemma volatility_short:
  assumes "calculate_non_overlapping_volatility E series wp = Inr cv"
    and "0 < wp" and "length series < nat wp" and "t < length series"
  shows "cv ! t = None"
proof -
  have cv: "cv = volatility_loop E (calculate_log_returns E series) (nat wp) 0
      (replicate (length (calculate_log_returns E series)) None)"
    using assms(1,2)
    by (simp add: calculate_non_overlapping_volatility_def Let_def length_calculate_log_returns)
  have "length (calculate_log_returns E series) < (t div nat wp + 1) * nat wp"
    using assms(3) by (simp add: length_calculate_log_returns)
  then show ?thesis
    using volatility_from_start [of "nat wp" t "calculate_log_returns E series" E] assms(2,4)
    by (simp add: cv length_calculate_log_returns)
qed

lemma every_nth_positions:
  assumes "0 < step"
  shows "every_nth step xs = map (\<lambda>j. xs ! (j * step)) [0..<(length xs + step - 1) div step]"
proof (rule nth_equalityI)
  show "length (every_nth step xs) =
      length (map (\<lambda>j. xs ! (j * step)) [0..<(length xs + step - 1) div step])"
    using assms by (simp add: length_every_nth)
next
  fix j assume "j < length (every_nth step xs)"
  then have j: "j < (length xs + step - 1) div step"
    using assms by (simp add: length_every_nth)
  then have "j * step < length xs"
    using sampled_position [OF assms, of j "length xs"] by simp
  then show "every_nth step xs ! j =
      map (\<lambda>j. xs ! (j * step)) [0..<(length xs + step - 1) div step] ! j"
    using assms j by (simp add: nth_every_nth)
qed

lemma iloc_step_returns: "wp \<noteq> 0 \<Longrightarrow> \<exists>S. iloc_step f wp = Inr S"
  by (simp add: iloc_step_def)

lemma map_of_map_snd:
  "map_of (map (\<lambda>c. (fst c, g (snd c))) cs) name = map_option g (map_of cs name)"
  by (induction cs) auto

lemma iloc_step_positive:
  assumes "iloc_step f wp = Inr S" and "0 < wp"
  shows "index S = every_nth (nat wp) (index f)"
    and "col S name = map_option (every_nth (nat wp)) (col f name)"
    and "map fst (columns S) = map fst (columns f)"
  using assms by (auto simp: iloc_step_def col_def map_of_map_snd comp_def)

lemma iloc_step_names:
  assumes "iloc_step f wp = Inr S"
  shows "map fst (columns S) = map fst (columns f)"
  using assms by (auto simp: iloc_step_def comp_def split: if_splits)

lemma dropna_names: "map fst (columns (dropna f)) = map fst (columns f)"
  by (simp add: dropna_def Let_def comp_def)

lemma col_dropna:
  "col (dropna f) name =
     map_option (pick (filter (complete_row f) [0..<length (index f)])) (col f name)"
  by (simp add: dropna_def Let_def col_def map_of_map_snd)

lemma index_dropna:
  "index (dropna f) = pick (filter (complete_row f) [0..<length (index f)]) (index f)"
  by (simp add: dropna_def Let_def)

lemma dropna_no_missing: "frame_no_missing (dropna f)"
  by (auto simp: frame_no_missing_def no_missing_def dropna_def Let_def pick_def
      complete_row_def list_all_iff)

lemma dropna_empty:
  assumes "col f name = Some c" and "\<And>t. t < length (index f) \<Longrightarrow> c ! t = None"
  shows "index (dropna f) = []" and "col (dropna f) name = Some []"
proof -
  have "(name, c) \<in> set (columns f)" using assms(1) by (rule col_in_columns)
  then have "\<not> complete_row f t" if "t < length (index f)" for t
    using assms(2) [OF that] by (force simp: complete_row_def list_all_iff)
  then have "filter (complete_row f) [0..<length (index f)] = []"
    by (auto simp: filter_empty_conv)
  then show "index (dropna f) = []" and "col (dropna f) name = Some []"
    using assms(1) by (simp_all add: index_dropna col_dropna pick_def)
qed

lemma name_has_col: "name \<in> set (map fst (columns f)) \<longleftrightarrow> col f name \<noteq> None"
  by (simp add: col_def map_of_eq_None_iff)

lemma select_columns_returns:
  "(\<And>n. n \<in> set names \<Longrightarrow> map_of cs n \<noteq> None) \<Longrightarrow>
   select_columns cs names = Inr (map (\<lambda>n. (n, the (map_of cs n))) names)"
  by (induction names) (auto split: option.splits)

lemma select_returns:
  assumes "\<And>n. n \<in> set names \<Longrightarrow> col f n \<noteq> None"
  shows "select f names = Inr \<lparr>index = index f, columns = map (\<lambda>n. (n, the (col f n))) names\<rparr>"
  using select_columns_returns [of names "columns f"] assms
  by (simp add: select_def col_def)

lemma col_selected:
  "n \<in> set names \<Longrightarrow>
   col \<lparr>index = idx, columns = map (\<lambda>n. (n, the (col f n))) names\<rparr> n = Some (the (col f n))"
  by (induction names) (auto simp: col_def)

lemma selected_no_missing:
  assumes "frame_no_missing f" and "\<And>n. n \<in> set names \<Longrightarrow> col f n \<noteq> None"
  shows "frame_no_missing \<lparr>index = idx, columns = map (\<lambda>n. (n, the (col f n))) names\<rparr>"
proof -
  have "no_missing (the (col f n))" if n: "n \<in> set names" for n
  proof -
    have "col f n \<noteq> None" using assms(2) [OF n] .
    then obtain c where c: "col f n = Some c" by auto
    then have "(n, c) \<in> set (columns f)" by (rule col_in_columns)
    then show ?thesis using assms(1) c by (auto simp: frame_no_missing_def list_all_iff)
  qed
  then show ?thesis by (simp add: frame_no_missing_def list_all_iff)
qed

lemma col_no_missing:
  "frame_no_missing f \<Longrightarrow> col f name = Some c \<Longrightarrow> no_missing c"
  using col_in_columns [of f name c] by (auto simp: frame_no_missing_def list_all_iff)

lemma map_columns_names: "map fst (columns (map_columns g f)) = map fst (columns f)"
  by (simp add: map_columns_def comp_def)

lemma map_columns_fill_zero_no_missing: "frame_no_missing (map_columns (fill_zero v) f)"
  by (simp add: frame_no_missing_def map_columns_def list_all_iff no_missing_fill_zero)

subsection \<open>The table of features\<close>

lemma col_assigned:
  "col (assign_all (kvs @ extra) f) name =
     (case map_of (rev extra) name of
        Some v \<Rightarrow> Some v
      | None \<Rightarrow> (case map_of (rev kvs) name of Some v \<Rightarrow> Some v | None \<Rightarrow> col f name))"
  by (simp add: col_assign_all map_of_append map_add_def split: option.splits)

lemma lengths_assigned_columns:
  assumes "length close = n" and "length volume = n"
  shows "list_all (\<lambda>kv. length (snd kv) = n) (assigned_columns E close volume)"
  using assms
  by (simp add: assigned_columns_def Let_def length_shift length_np_log_div
      length_rolling_mean length_ewm_mean)

lemma features_ok:
  assumes "ready E w0 df wp" and "wp \<noteq> 0"
  shows "\<exists>c0 v0 cv F S.
     col (objs w0 ! df) ''close'' = Some c0 \<and>
     col (objs w0 ! df) ''volume'' = Some v0 \<and>
     length c0 = length (index (objs w0 ! df)) \<and>
     length v0 = length (index (objs w0 ! df)) \<and>
     calculate_non_overlapping_volatility E (fill_both c0) wp = Inr cv \<and>
     length cv = length (index (objs w0 ! df)) \<and>
     F = assign_all (assigned_columns E (fill_both c0) (fill_both v0) @
               [(''current_volatility'', cv), (''target_volatility'', shift (- 5) cv)])
             (map_columns bfill (map_columns ffill (objs w0 ! df))) \<and>
     wf_frame F \<and>
     index F = index (objs w0 ! df) \<and>
     iloc_step F wp = Inr S \<and>
     calculate_volatility_features E df w0 =
       (Inr (length (objs w0) + 4, returned_names),
        w0\<lparr>objs := objs w0 @ [objs w0 ! df, map_columns ffill (objs w0 ! df), F, S, S]\<rparr>)"
proof -
  let ?f0 = "objs w0 ! df"
  let ?n = "length (index ?f0)"
  from assms(1) have valid: "df < length (objs w0)" and wf: "wf_frame ?f0"
    and tdr: "timedelta_ratio E (self_volatility_window (self w0)) (self_candle_interval (self w0)) = Inr wp"
    by (simp_all add: ready_def)
  from assms(1) obtain c0 v0 where
    close: "col ?f0 ''close'' = Some c0" and volume: "col ?f0 ''volume'' = Some v0"
    by (auto simp: ready_def)
  have lc: "length c0 = ?n" and lv: "length v0 = ?n"
    using col_length [OF wf close] col_length [OF wf volume] by simp_all
  obtain cv where cv: "calculate_non_overlapping_volatility E (fill_both c0) wp = Inr cv"
    using volatility_returns [OF assms(2)] by blast
  have lcv: "length cv = ?n"
    using length_volatility [OF cv] lc by (simp add: length_fill_both)
  define F where "F = assign_all (assigned_columns E (fill_both c0) (fill_both v0) @
               [(''current_volatility'', cv), (''target_volatility'', shift (- 5) cv)])
             (map_columns bfill (map_columns ffill ?f0))"
  have wf2: "wf_frame (map_columns bfill (map_columns ffill ?f0))"
    by (intro wf_map_columns wf length_ffill length_bfill)
  have "wf_frame F"
    unfolding F_def
    by (rule wf_assign_all [OF wf2])
       (simp add: index_map_columns lengths_assigned_columns length_fill_both lc lv lcv length_shift)
  moreover have "index F = index ?f0"
    by (simp add: F_def index_assign_all index_map_columns)
  moreover obtain S where S: "iloc_step F wp = Inr S"
    using iloc_step_returns [OF assms(2)] by blast
  moreover have "calculate_volatility_features E df w0 =
       (Inr (length (objs w0) + 4, returned_names),
        w0\<lparr>objs := objs w0 @ [?f0, map_columns ffill ?f0, F, S, S]\<rparr>)"
    unfolding returned_names_def
    by (rule features_run [OF valid close volume tdr cv F_def S])
  ultimately show ?thesis using close volume lc lv cv lcv F_def by blast
qed

subsection \<open>The example world\<close>

lemma timedelta_sym: "timedelta_ratio sym_ext ''5min'' ''1min'' = Inr 5"
  by (simp add: sym_ext_def minutes_def)

lemma world_of_simps:
  "objs (world_of f) = [f]"
  "calls (world_of f) = []"
  "self_volatility_window (self (world_of f)) = ''5min''"
  "self_candle_interval (self (world_of f)) = ''1min''"
  "config (self (world_of f)) = RfregressorConfig_init"
  "model (self (world_of f)) = Unfitted 10 42 25"
  "model_name (self (world_of f)) = ''rfregressor_volatility''"
  by (simp_all add: world_of_def init_def RfregressorConfig_init_def sym_ext_simps)

lemma bars_simps:
  "index (bars n) = [0..<n]"
  "col (bars n) ''close'' = Some (map (\<lambda>t. Some (Num (100 + int t * int t))) [0..<n])"
  "col (bars n) ''volume'' = Some (map (\<lambda>t. Some (Num (10 + int t))) [0..<n])"
  "wf_frame (bars n)"
  by (simp_all add: bars_def col_def wf_frame_def)

lemma ready_bars: "ready sym_ext (world_of (bars n)) 0 5"
  by (simp add: ready_def world_of_simps bars_simps timedelta_sym)

subsection \<open>The target\<close>

text \<open>
  In the table that \<^verbatim>\<open>_calculate_volatility_features\<close> builds, whatever the
  configuration of the wrapper, \<open>target_volatility[t]\<close> is \<open>current_volatility[t + 5]\<close>
  where that row exists and is missing in the last five rows: the method writes
  \<^verbatim>\<open>shift(-5)\<close>. The shift is made on the table of all bars: row \<open>j\<close> of the sampled
  table holds the target of the bar \<open>j * window_points\<close>.
\<close>

lemma target_shifted_by_five:
  assumes "ready E w0 df wp" and "0 < wp"
  shows "\<exists>df_sampled names w1 current target sampled_target.
     calculate_volatility_features E df w0 = (Inr (df_sampled, names), w1) \<and>
     col (objs w1 ! local_df w0) ''current_volatility'' = Some current \<and>
     col (objs w1 ! local_df w0) ''target_volatility'' = Some target \<and>
     length current = length (index (objs w0 ! df)) \<and>
     length target = length (index (objs w0 ! df)) \<and>
     (\<forall>t < length target.
        target ! t = (if t + 5 < length current then current ! (t + 5) else None)) \<and>
     col (objs w1 ! df_sampled) ''target_volatility'' = Some sampled_target \<and>
     length sampled_target = (length target + nat wp - 1) div nat wp \<and>
     (\<forall>j < length sampled_target. sampled_target ! j = target ! (j * nat wp))"
proof -
  from assms(2) have nz: "wp \<noteq> 0" by simp
  from features_ok [OF assms(1) nz] obtain c0 v0 cv F S where
    lcv: "length cv = length (index (objs w0 ! df))"
    and F: "F = assign_all (assigned_columns E (fill_both c0) (fill_both v0) @
               [(''current_volatility'', cv), (''target_volatility'', shift (- 5) cv)])
             (map_columns bfill (map_columns ffill (objs w0 ! df)))"
    and S: "iloc_step F wp = Inr S"
    and run: "calculate_volatility_features E df w0 =
       (Inr (length (objs w0) + 4, returned_names),
        w0\<lparr>objs := objs w0 @ [objs w0 ! df, map_columns ffill (objs w0 ! df), F, S, S]\<rparr>)"
    by blast
  let ?w1 = "w0\<lparr>objs := objs w0 @ [objs w0 ! df, map_columns ffill (objs w0 ! df), F, S, S]\<rparr>"
  let ?target = "shift (- 5) cv"
  have at_df: "objs ?w1 ! local_df w0 = F"
    by (simp add: local_df_def nth_append)
  have at_s: "objs ?w1 ! (length (objs w0) + 4) = S"
    by (simp add: nth_append)
  have current: "col F ''current_volatility'' = Some cv"
    and target: "col F ''target_volatility'' = Some ?target"
    by (simp_all add: F col_assigned)
  have shifted: "?target ! t = (if t + 5 < length cv then cv ! (t + 5) else None)"
    if "t < length ?target" for t
    using that nth_shift_backward [of "- 5" t cv] by (simp add: length_shift)
  have sampled: "col S ''target_volatility'' = Some (every_nth (nat wp) ?target)"
    using iloc_step_positive(2) [OF S assms(2)] target by simp
  have count: "length (every_nth (nat wp) ?target) = (length ?target + nat wp - 1) div nat wp"
    using assms(2) by (simp add: length_every_nth)
  have picked: "every_nth (nat wp) ?target ! j = ?target ! (j * nat wp)"
    if "j < length (every_nth (nat wp) ?target)" for j
  proof -
    have "j * nat wp < length ?target"
      using that count sampled_position [of "nat wp" j "length ?target"] assms(2) by simp
    then show ?thesis using assms(2) by (simp add: nth_every_nth)
  qed
  show ?thesis
    using run at_df at_s current target lcv shifted sampled count picked
    by (simp add: length_shift)
qed

subsection \<open>The lagged columns\<close>

text \<open>
  The method writes \<^verbatim>\<open>range(1, 5)\<close>: the feature builder emits
  the lagged columns for the lags \<open>1\<close> to \<open>4\<close> and no other: for each of them the
  column \<^verbatim>\<open>log_return_t-i\<close> holds \<open>log_returns[t - i]\<close> at \<open>t \<ge> i\<close> and is missing
  before, and the column \<^verbatim>\<open>volume_t-i\<close> holds the (filled) \<open>volume[t - i]\<close> at
  \<open>t \<ge> i\<close> and is missing before. The list of names that is returned holds four
  names of each kind.
\<close>

lemma lag_columns:
  assumes "ready E w0 df wp" and "wp \<noteq> 0" and "1 \<le> i" and "i \<le> 4"
  shows "\<exists>df_sampled w1 log_returns volume log_return_lag volume_lag.
     calculate_volatility_features E df w0 = (Inr (df_sampled, returned_names), w1) \<and>
     ''log_return_t-'' @ str i \<in> set returned_names \<and>
     ''volume_t-'' @ str i \<in> set returned_names \<and>
     length (filter (\<lambda>name. take 13 name = ''log_return_t-'') returned_names) = 4 \<and>
     length (filter (\<lambda>name. take 9 name = ''volume_t-'') returned_names) = 4 \<and>
     col (objs w1 ! local_df w0) ''log_returns'' = Some log_returns \<and>
     col (objs w1 ! local_df w0) ''volume'' = Some volume \<and>
     col (objs w1 ! local_df w0) (''log_return_t-'' @ str i) = Some log_return_lag \<and>
     col (objs w1 ! local_df w0) (''volume_t-'' @ str i) = Some volume_lag \<and>
     length log_return_lag = length (index (objs w0 ! df)) \<and>
     length volume_lag = length (index (objs w0 ! df)) \<and>
     (\<forall>t < length (index (objs w0 ! df)).
        log_return_lag ! t = (if i \<le> t then log_returns ! (t - i) else None)) \<and>
     (\<forall>t < length (index (objs w0 ! df)).
        volume_lag ! t = (if i \<le> t then volume ! (t - i) else None))"
proof -
  let ?n = "length (index (objs w0 ! df))"
  from features_ok [OF assms(1,2)] obtain c0 v0 cv F S where
    close: "col (objs w0 ! df) ''close'' = Some c0"
    and volume: "col (objs w0 ! df) ''volume'' = Some v0"
    and lc: "length c0 = ?n" and lv: "length v0 = ?n"
    and F: "F = assign_all (assigned_columns E (fill_both c0) (fill_both v0) @
               [(''current_volatility'', cv), (''target_volatility'', shift (- 5) cv)])
             (map_columns bfill (map_columns ffill (objs w0 ! df)))"
    and run: "calculate_volatility_features E df w0 =
       (Inr (length (objs w0) + 4, returned_names),
        w0\<lparr>objs := objs w0 @ [objs w0 ! df, map_columns ffill (objs w0 ! df), F, S, S]\<rparr>)"
    by blast
  let ?w1 = "w0\<lparr>objs := objs w0 @ [objs w0 ! df, map_columns ffill (objs w0 ! df), F, S, S]\<rparr>"
  define lr where "lr = np_log_div E (fill_both c0) (shift 1 (fill_both c0))"
  define vol where "vol = fill_both v0"
  have at_df: "objs ?w1 ! local_df w0 = F"
    by (simp add: local_df_def nth_append)
  have llr: "length lr = ?n" and lvol: "length vol = ?n"
    by (simp_all add: lr_def vol_def length_np_log_div length_shift length_fill_both lc lv)
  have cols: "col F ''log_returns'' = Some lr" "col F ''volume'' = Some vol"
    by (simp_all add: F col_assign_all assigned_columns_def Let_def col_map_columns volume
        lr_def vol_def fill_both_def)
  have lags: "col F (''log_return_t-'' @ str i) = Some (shift (int i) lr) \<and>
      col F (''volume_t-'' @ str i) = Some (shift (int i) vol) \<and>
      ''log_return_t-'' @ str i \<in> set returned_names \<and>
      ''volume_t-'' @ str i \<in> set returned_names"
  proof -
    from assms(3,4) consider "i = Suc 0" | "i = 2" | "i = 3" | "i = 4" by linarith
    then show ?thesis
      by cases
        (simp_all add: F col_assign_all assigned_columns_def Let_def str_digits returned_names_def
          lr_def vol_def)
  qed
  have counts: "length (filter (\<lambda>name. take 13 name = ''log_return_t-'') returned_names) = 4"
    "length (filter (\<lambda>name. take 9 name = ''volume_t-'') returned_names) = 4"
    by (simp_all add: returned_names_def)
  have shifted: "shift (int i) xs ! t = (if i \<le> t then xs ! (t - i) else None)"
    if "t < length xs" for xs :: "'b series" and t
    using that nth_shift_forward [of "int i" t xs] by simp
  show ?thesis
    using run at_df cols lags counts llr lvol shifted [of _ lr] shifted [of _ vol]
    by (simp add: length_shift)
qed

lemma lag_columns_example:
  "ready sym_ext (world_of (bars 12)) 0 5 \<and> (5::int) \<noteq> 0 \<and> (1::nat) \<le> 2 \<and> (2::nat) \<le> 4 \<and>
   (\<exists>df_sampled w1 log_returns volume log_return_lag volume_lag.
     calculate_volatility_features sym_ext 0 (world_of (bars 12)) =
       (Inr (df_sampled, returned_names), w1) \<and>
     col (objs w1 ! local_df (world_of (bars 12))) ''log_returns'' = Some log_returns \<and>
     col (objs w1 ! local_df (world_of (bars 12))) ''volume'' = Some volume \<and>
     col (objs w1 ! local_df (world_of (bars 12))) ''log_return_t-2'' = Some log_return_lag \<and>
     col (objs w1 ! local_df (world_of (bars 12))) ''volume_t-2'' = Some volume_lag \<and>
     log_return_lag ! 5 = log_returns ! 3 \<and> log_return_lag ! 1 = None \<and>
     volume_lag ! 5 = volume ! 3 \<and> volume_lag ! 0 = None)"
proof -
  let ?w = "world_of (bars 12)"
  have r: "ready sym_ext ?w 0 5" by (rule ready_bars)
  have n: "length (index (objs ?w ! 0)) = 12" by (simp add: world_of_simps bars_simps)
  from lag_columns [OF r, of 2]
  obtain df_sampled w1 log_returns volume log_return_lag volume_lag where
    run: "calculate_volatility_features sym_ext 0 ?w = (Inr (df_sampled, returned_names), w1)"
    and c1: "col (objs w1 ! local_df ?w) ''log_returns'' = Some log_returns"
    and c2: "col (objs w1 ! local_df ?w) ''volume'' = Some volume"
    and c3: "col (objs w1 ! local_df ?w) (''log_return_t-'' @ str 2) = Some log_return_lag"
    and c4: "col (objs w1 ! local_df ?w) (''volume_t-'' @ str 2) = Some volume_lag"
    and l1: "\<And>t. t < length (index (objs ?w ! 0)) \<Longrightarrow>
        log_return_lag ! t = (if 2 \<le> t then log_returns ! (t - 2) else None)"
    and l2: "\<And>t. t < length (index (objs ?w ! 0)) \<Longrightarrow>
        volume_lag ! t = (if 2 \<le> t then volume ! (t - 2) else None)"
    by auto
  have "log_return_lag ! 5 = log_returns ! 3" using l1 [of 5] n by simp
  moreover have "log_return_lag ! 1 = None" using l1 [of 1] n by simp
  moreover have "volume_lag ! 5 = volume ! 3" using l2 [of 5] n by simp
  moreover have "volume_lag ! 0 = None" using l2 [of 0] n by simp
  ultimately show ?thesis
    using r run c1 c2 c3 c4 by (auto simp: str_digits)
qed

text \<open>
  Claim C3. The specification gives the lags as \<open>1\<close> to \<open>n_lags\<close> of the
  configuration, documented there as the number of lags for features. The method does
  not read that field. The configuration that the constructor builds has
  \<open>n_lags = 5\<close>; on three bars the method returns its eleven names, none of them for
  the lag \<open>5\<close>, and the table of features has the lagged columns of the lags \<open>1\<close> to
  \<open>4\<close> only.
\<close>

theorem lag_five_missing:
  "n_lags (config (self (world_of (bars 3)))) = 5 \<and>
   fst (calculate_volatility_features sym_ext 0 (world_of (bars 3))) = Inr (5, returned_names) \<and>
   ''log_return_t-5'' \<notin> set returned_names \<and>
   ''volume_t-5'' \<notin> set returned_names \<and>
   map fst (columns (objs (snd (calculate_volatility_features sym_ext 0 (world_of (bars 3))))
      ! local_df (world_of (bars 3)))) =
     [''close'', ''volume'', ''log_returns'',
      ''log_return_t-1'', ''volume_t-1'', ''log_return_t-2'', ''volume_t-2'',
      ''log_return_t-3'', ''volume_t-3'', ''log_return_t-4'', ''volume_t-4'',
      ''SMA_10'', ''EMA_10'', ''current_volatility'', ''target_volatility'']"
proof -
  let ?w = "world_of (bars 3)"
  have r: "ready sym_ext ?w 0 5" by (rule ready_bars)
  from features_ok [OF r] obtain c0 v0 cv F S where
    F: "F = assign_all (assigned_columns sym_ext (fill_both c0) (fill_both v0) @
               [(''current_volatility'', cv), (''target_volatility'', shift (- 5) cv)])
             (map_columns bfill (map_columns ffill (objs ?w ! 0)))"
    and run: "calculate_volatility_features sym_ext 0 ?w =
       (Inr (length (objs ?w) + 4, returned_names),
        ?w\<lparr>objs := objs ?w @ [objs ?w ! 0, map_columns ffill (objs ?w ! 0), F, S, S]\<rparr>)"
    by auto
  have names: "map fst (columns F) =
     [''close'', ''volume'', ''log_returns'',
      ''log_return_t-1'', ''volume_t-1'', ''log_return_t-2'', ''volume_t-2'',
      ''log_return_t-3'', ''volume_t-3'', ''log_return_t-4'', ''volume_t-4'',
      ''SMA_10'', ''EMA_10'', ''current_volatility'', ''target_volatility'']"
    by (simp add: F assign_all_def assigned_columns_def Let_def set_col_def map_columns_def
        world_of_simps bars_def)
  show ?thesis
    using run names
    by (simp add: world_of_simps RfregressorConfig_init_def returned_names_def local_df_def)
qed

subsection \<open>Training\<close>

lemma col_assign_all_present:
  assumes "n \<in> set (map fst kvs) \<or> col f n \<noteq> None"
  shows "col (assign_all kvs f) n \<noteq> None"
proof (cases "map_of (rev kvs) n")
  case None
  then have "n \<notin> set (map fst kvs)" by (simp add: map_of_eq_None_iff)
  then show ?thesis using assms None by (simp add: col_assign_all)
next
  case (Some v)
  then show ?thesis by (simp add: col_assign_all)
qed

lemma assigned_names:
  "map fst (assigned_columns E close volume) = ''log_returns'' # take 10 returned_names"
  by (simp add: assigned_columns_def Let_def returned_names_def)

lemma features_have_columns:
  assumes "F = assign_all (assigned_columns E close volume @
               [(''current_volatility'', cv), (''target_volatility'', tv)]) f"
    and "col f ''close'' \<noteq> None"
    and "n \<in> set (returned_names @ [''close'', ''target_volatility''])"
  shows "col F n \<noteq> None"
proof -
  have "set returned_names \<subseteq> set (take 10 returned_names) \<union> {''current_volatility''}"
    by (simp add: returned_names_def)
  then have "n = ''close'' \<or>
      n \<in> set (map fst (assigned_columns E close volume @
               [(''current_volatility'', cv), (''target_volatility'', tv)]))"
    using assms(3) by (auto simp: assigned_names)
  then show ?thesis
    unfolding assms(1) using assms(2) by (intro col_assign_all_present) blast
qed

lemma train_ok:
  assumes "ready E w0 df wp" and "wp \<noteq> 0"
  shows "\<exists>c0 v0 cv F S X y wA.
     col (objs w0 ! df) ''close'' = Some c0 \<and>
     calculate_non_overlapping_volatility E (fill_both c0) wp = Inr cv \<and>
     length cv = length (index (objs w0 ! df)) \<and>
     F = assign_all (assigned_columns E (fill_both c0) (fill_both v0) @
               [(''current_volatility'', cv), (''target_volatility'', shift (- 5) cv)])
             (map_columns bfill (map_columns ffill (objs w0 ! df))) \<and>
     wf_frame F \<and>
     index F = index (objs w0 ! df) \<and>
     iloc_step F wp = Inr S \<and>
     X = \<lparr>index = index (dropna S),
          columns = map (\<lambda>n. (n, the (col (dropna S) n))) (returned_names @ [''close''])\<rparr> \<and>
     col (dropna S) ''target_volatility'' = Some y \<and>
     list_all (\<lambda>n. col (dropna S) n \<noteq> None) (returned_names @ [''close'']) \<and>
     wA = w0\<lparr>objs := objs w0 @ [objs w0 ! df, map_columns ffill (objs w0 ! df), F, S, S,
                                   dropna S, X],
             calls := calls w0 @ [Fit_call X y]\<rparr> \<and>
     train E df w0 =
       (case fit E (model (self w0)) X y of
          Inl e \<Rightarrow> (Inl e, wA)
        | Inr m \<Rightarrow>
            (case save E (model_name (self w0)) m of Some e \<Rightarrow> Inl e | None \<Rightarrow> Inr (),
             wA\<lparr>calls := calls w0 @ [Fit_call X y, Save_call],
                self := (self w0)\<lparr>model := m\<rparr>\<rparr>))"
proof -
  let ?f0 = "objs w0 ! df"
  from features_ok [OF assms] obtain c0 v0 cv F S where
    close: "col ?f0 ''close'' = Some c0"
    and cv: "calculate_non_overlapping_volatility E (fill_both c0) wp = Inr cv"
    and lcv: "length cv = length (index ?f0)"
    and F: "F = assign_all (assigned_columns E (fill_both c0) (fill_both v0) @
               [(''current_volatility'', cv), (''target_volatility'', shift (- 5) cv)])
             (map_columns bfill (map_columns ffill ?f0))"
    and wfF: "wf_frame F" and iF: "index F = index ?f0"
    and S: "iloc_step F wp = Inr S"
    and run: "calculate_volatility_features E df w0 =
       (Inr (length (objs w0) + 4, returned_names),
        w0\<lparr>objs := objs w0 @ [?f0, map_columns ffill ?f0, F, S, S]\<rparr>)"
    by blast
  let ?w1 = "w0\<lparr>objs := objs w0 @ [?f0, map_columns ffill ?f0, F, S, S]\<rparr>"
  let ?D = "dropna S"
  let ?names = "returned_names @ [''close'']"
  define X where "X = \<lparr>index = index ?D, columns = map (\<lambda>n. (n, the (col ?D n))) ?names\<rparr>"
  define wA where "wA y = w0\<lparr>objs := objs w0 @ [?f0, map_columns ffill ?f0, F, S, S, ?D, X],
             calls := calls w0 @ [Fit_call X y]\<rparr>" for y
  have at_s: "objs ?w1 ! (length (objs w0) + 4) = S" by (simp add: nth_append)
  have inF: "col F n \<noteq> None" if "n \<in> set (returned_names @ [''close'', ''target_volatility''])" for n
    by (rule features_have_columns [OF F _ that]) (simp add: col_map_columns close)
  have inD: "col ?D n \<noteq> None" if "n \<in> set (returned_names @ [''close'', ''target_volatility''])" for n
  proof -
    have "n \<in> set (map fst (columns F))"
      using inF [OF that] name_has_col [of n F] by blast
    then have "n \<in> set (map fst (columns ?D))"
      by (simp only: dropna_names iloc_step_names [OF S])
    then show ?thesis using name_has_col [of n ?D] by blast
  qed
  have sel: "select ?D ?names = Inr X"
    unfolding X_def by (rule select_returns) (rule inD, auto)
  obtain y where y: "col ?D ''target_volatility'' = Some y"
    using inD [of "''target_volatility''"] by auto
  have e1: "?w1\<lparr>objs := objs ?w1 @ [?D, X], calls := calls ?w1 @ [Fit_call X y]\<rparr> = wA y"
    by (simp add: wA_def)
  have e2: "?w1\<lparr>objs := objs ?w1 @ [?D, X], calls := calls ?w1 @ [Fit_call X y, Save_call],
             self := (self w0)\<lparr>model := m\<rparr>\<rparr> =
        (wA y)\<lparr>calls := calls w0 @ [Fit_call X y, Save_call], self := (self w0)\<lparr>model := m\<rparr>\<rparr>" for m
    by (simp add: wA_def)
  have e3: "self ?w1 = self w0" by simp
  have "train E df w0 =
    (case fit E (model (self ?w1)) X y of
       Inl e \<Rightarrow> (Inl e, ?w1\<lparr>objs := objs ?w1 @ [dropna (objs ?w1 ! (length (objs w0) + 4)), X],
                            calls := calls ?w1 @ [Fit_call X y]\<rparr>)
     | Inr m \<Rightarrow>
         (case save E (model_name (self ?w1)) m of
            Some e \<Rightarrow> Inl e
          | None \<Rightarrow> Inr (),
          ?w1\<lparr>objs := objs ?w1 @ [dropna (objs ?w1 ! (length (objs w0) + 4)), X],
             calls := calls ?w1 @ [Fit_call X y, Save_call],
             self := (self ?w1)\<lparr>model := m\<rparr>\<rparr>))"
    by (rule train_after_features [OF run]) (simp_all only: at_s sel y)
  then have tr: "train E df w0 =
       (case fit E (model (self w0)) X y of
          Inl e \<Rightarrow> (Inl e, wA y)
        | Inr m \<Rightarrow>
            (case save E (model_name (self w0)) m of Some e \<Rightarrow> Inl e | None \<Rightarrow> Inr (),
             (wA y)\<lparr>calls := calls w0 @ [Fit_call X y, Save_call],
                self := (self w0)\<lparr>model := m\<rparr>\<rparr>))"
    unfolding at_s e3 e1 e2 .
  show ?thesis
    apply (rule exI [of _ c0], rule exI [of _ v0], rule exI [of _ cv], rule exI [of _ F])
    apply (rule exI [of _ S], rule exI [of _ X], rule exI [of _ y], rule exI [of _ "wA y"])
    apply (intro conjI)
    subgoal by (fact close)
    subgoal by (fact cv)
    subgoal by (fact lcv)
    subgoal by (fact F)
    subgoal by (fact wfF)
    subgoal by (fact iF)
    subgoal by (fact S)
    subgoal by (fact X_def)
    subgoal by (fact y)
    subgoal by (simp only: list_all_iff) (intro ballI inD, auto)
    subgoal by (fact wA_def)
    subgoal by (fact tr)
    done
qed

subsection \<open>The forecast\<close>

text \<open>
  Claim C7. For every non-negative \<open>steps\<close> and every world (whatever the wrapper's
  estimator has been through), \<^verbatim>\<open>forecast(steps)\<close> returns a table whose one column holds
  \<open>steps\<close> zeros, and leaves the world as it is: no call of the estimator is recorded
  and the estimator is the same.
\<close>

theorem forecast_zeros:
  assumes "0 \<le> steps"
  shows "\<exists>table zeros.
     forecast steps w = (Inr table, w) \<and>
     columns table = [(''forecast'', zeros)] \<and>
     int (length zeros) = steps \<and>
     (\<forall>z \<in> set zeros. z = Some 0) \<and>
     index table = [0..<nat steps]"
  using assms by (simp add: forecast_def return_def)

theorem forecast_zeros_witness:
  "(0::int) \<le> 3 \<and>
   forecast 3 (world_of (bars 3)) =
     (Inr \<lparr>index = [0, 1, 2], columns = [(''forecast'', [Some 0, Some 0, Some 0])]\<rparr>,
      world_of (bars 3))"
proof -
  from forecast_zeros [of 3 "world_of (bars 3)"]
  obtain table zeros where
    run: "forecast 3 (world_of (bars 3)) = (Inr table, world_of (bars 3))"
    and cols: "columns table = [(''forecast'', zeros)]"
    and len: "int (length zeros) = 3"
    and all: "\<forall>z \<in> set zeros. z = Some 0"
    and idx: "index table = [0..<nat 3]"
    by auto
  from len have "length zeros = 3" by simp
  then obtain a b c where "zeros = [a, b, c]"
    by (auto simp: length_Suc_conv numeral_3_eq_3)
  with all have z: "zeros = [Some 0, Some 0, Some 0]" by simp
  have "table = \<lparr>index = [0, 1, 2], columns = [(''forecast'', [Some 0, Some 0, Some 0])]\<rparr>"
    using cols idx z by (cases table) (simp add: upt_rec)
  with run show ?thesis by simp
qed

subsection \<open>What train hands to the estimator\<close>

lemma short_series_drops_all:
  assumes cv: "calculate_non_overlapping_volatility E series wp = Inr cv"
    and F: "col F ''current_volatility'' = Some cv"
    and n: "length series = length (index F)" "length (index F) < nat wp" and wp: "0 < wp"
    and S: "iloc_step F wp = Inr S"
  shows "index (dropna S) = []"
proof (rule dropna_empty(1))
  show "col S ''current_volatility'' = Some (every_nth (nat wp) cv)"
    using iloc_step_positive(2) [OF S wp] F by simp
next
  fix t assume "t < length (index S)"
  then have "t < (length (index F) + nat wp - 1) div nat wp"
    using iloc_step_positive(1) [OF S wp] wp by (simp add: length_every_nth)
  then have t: "t * nat wp < length (index F)"
    using sampled_position [of "nat wp" t "length (index F)"] wp by simp
  then have "t * nat wp < length cv" using length_volatility [OF cv] n by simp
  then have "every_nth (nat wp) cv ! t = cv ! (t * nat wp)"
    using wp by (simp add: nth_every_nth)
  also have "\<dots> = None"
    using volatility_short [OF cv wp] n t by simp
  finally show "every_nth (nat wp) cv ! t = None" .
qed

text \<open>
  Claim C4, as amended. \<^verbatim>\<open>train\<close> makes no check of its own on the rows that are left.
  Whenever the features can be computed, it hands the sampled rows without missing
  values to the estimator's \<^verbatim>\<open>fit\<close>, also when none is left, and what it returns is what
  \<^verbatim>\<open>fit\<close>, and then \<^verbatim>\<open>save\<close>, return. With fewer bars than one window the table that
  \<^verbatim>\<open>fit\<close> receives has no row.
\<close>

theorem train_always_fits:
  assumes "ready E w0 data wp" and "0 < wp"
  shows "\<exists>X y r w1.
     train E data w0 = (r, w1) \<and>
     take (Suc (length (calls w0))) (calls w1) = calls w0 @ [Fit_call X y] \<and>
     r = (case fit E (model (self w0)) X y of
            Inl e \<Rightarrow> Inl e
          | Inr m \<Rightarrow> (case save E (model_name (self w0)) m of Some e \<Rightarrow> Inl e | None \<Rightarrow> Inr ())) \<and>
     (length (index (objs w0 ! data)) < nat wp \<longrightarrow> index X = [] \<and> y = [])"
proof -
  from assms(2) have nz: "wp \<noteq> 0" by simp
  from train_ok [OF assms(1) nz] obtain c0 v0 cv F S X y wA where
    cv: "calculate_non_overlapping_volatility E (fill_both c0) wp = Inr cv"
    and lcv: "length cv = length (index (objs w0 ! data))"
    and F: "F = assign_all (assigned_columns E (fill_both c0) (fill_both v0) @
               [(''current_volatility'', cv), (''target_volatility'', shift (- 5) cv)])
             (map_columns bfill (map_columns ffill (objs w0 ! data)))"
    and iF: "index F = index (objs w0 ! data)"
    and S: "iloc_step F wp = Inr S"
    and X: "X = \<lparr>index = index (dropna S),
          columns = map (\<lambda>n. (n, the (col (dropna S) n))) (returned_names @ [''close''])\<rparr>"
    and y: "col (dropna S) ''target_volatility'' = Some y"
    and wA: "wA = w0\<lparr>objs := objs w0 @ [objs w0 ! data, map_columns ffill (objs w0 ! data), F, S, S,
                                   dropna S, X],
             calls := calls w0 @ [Fit_call X y]\<rparr>"
    and run: "train E data w0 =
       (case fit E (model (self w0)) X y of
          Inl e \<Rightarrow> (Inl e, wA)
        | Inr m \<Rightarrow>
            (case save E (model_name (self w0)) m of Some e \<Rightarrow> Inl e | None \<Rightarrow> Inr (),
             wA\<lparr>calls := calls w0 @ [Fit_call X y, Save_call],
                self := (self w0)\<lparr>model := m\<rparr>\<rparr>))"
    by blast
  have cur: "col F ''current_volatility'' = Some cv" by (simp add: F col_assigned)
  have empty: "index X = [] \<and> y = []" if short: "length (index (objs w0 ! data)) < nat wp"
  proof -
    have len: "length (fill_both c0) = length (index F)"
      using length_volatility [OF cv] lcv iF by simp
    have d: "index (dropna S) = []"
      using short_series_drops_all [OF cv cur len _ assms(2) S] short iF by simp
    then have "filter (complete_row S) [0..<length (index S)] = []"
      by (simp add: index_dropna pick_def)
    then have "y = []" using y by (auto simp: col_dropna pick_def)
    with d show ?thesis by (simp add: X)
  qed
  let ?r = "case fit E (model (self w0)) X y of
            Inl e \<Rightarrow> Inl e
          | Inr m \<Rightarrow> (case save E (model_name (self w0)) m of Some e \<Rightarrow> Inl e | None \<Rightarrow> Inr ())"
  let ?w1 = "case fit E (model (self w0)) X y of
            Inl e \<Rightarrow> wA
          | Inr m \<Rightarrow> wA\<lparr>calls := calls w0 @ [Fit_call X y, Save_call],
                self := (self w0)\<lparr>model := m\<rparr>\<rparr>"
  have "train E data w0 = (?r, ?w1)"
    using run by (simp split: sum.splits)
  moreover have "take (Suc (length (calls w0))) (calls ?w1) = calls w0 @ [Fit_call X y]"
    by (simp add: wA split: sum.splits)
  ultimately show ?thesis using empty by blast
qed

lemma ready_lenient: "ready lenient_ext (world_of (bars n)) 0 5"
  by (simp add: ready_def world_of_simps bars_simps lenient_ext_def timedelta_sym)

lemma fit_sym_empty:
  "index X = [] \<Longrightarrow> fit sym_ext m X y = Inl (LibraryError ''Found array with 0 sample(s)'')"
  by (simp add: sym_ext_def)

lemma lenient_simps:
  "fit lenient_ext m X y = Inr (Fitted X y)"
  "save lenient_ext name m = None"
  by (simp_all add: lenient_ext_def sym_ext_def)

theorem train_always_fits_witness:
  "ready sym_ext (world_of (bars 3)) 0 5 \<and> (0::int) < 5 \<and>
   fst (train sym_ext 0 (world_of (bars 3))) = Inl (LibraryError ''Found array with 0 sample(s)'') \<and>
   (\<exists>X. take 1 (calls (snd (train sym_ext 0 (world_of (bars 3))))) = [Fit_call X []] \<and>
        index X = [])"
proof -
  let ?w = "world_of (bars 3)"
  have r: "ready sym_ext ?w 0 5" by (rule ready_bars)
  from train_always_fits [OF r] obtain X y res w1 where
    run: "train sym_ext 0 ?w = (res, w1)"
    and call: "take (Suc (length (calls ?w))) (calls w1) = calls ?w @ [Fit_call X y]"
    and res: "res = (case fit sym_ext (model (self ?w)) X y of
            Inl e \<Rightarrow> Inl e
          | Inr m \<Rightarrow> (case save sym_ext (model_name (self ?w)) m of Some e \<Rightarrow> Inl e | None \<Rightarrow> Inr ()))"
    and short: "length (index (objs ?w ! 0)) < nat 5 \<longrightarrow> index X = [] \<and> y = []"
    by auto
  have e: "index X = []" "y = []"
    using short by (simp_all add: world_of_simps bars_simps)
  have "res = Inl (LibraryError ''Found array with 0 sample(s)'')"
    using res fit_sym_empty [OF e(1)] by simp
  then show ?thesis
    using r run call e by (auto simp: world_of_simps)
qed

lemma train_short_calls:
  assumes r: "ready E (world_of (bars 3)) 0 5"
  shows "take 1 (calls (snd (train E 0 (world_of (bars 3))))) =
      [Fit_call \<lparr>index = [], columns =
        [(''log_return_t-1'', []), (''volume_t-1'', []), (''log_return_t-2'', []),
         (''volume_t-2'', []), (''log_return_t-3'', []), (''volume_t-3'', []),
         (''log_return_t-4'', []), (''volume_t-4'', []), (''SMA_10'', []), (''EMA_10'', []),
         (''current_volatility'', []), (''close'', [])]\<rparr> []] \<and>
     fst (train E 0 (world_of (bars 3))) =
       (case fit E (Unfitted 10 42 25) \<lparr>index = [], columns =
        [(''log_return_t-1'', []), (''volume_t-1'', []), (''log_return_t-2'', []),
         (''volume_t-2'', []), (''log_return_t-3'', []), (''volume_t-3'', []),
         (''log_return_t-4'', []), (''volume_t-4'', []), (''SMA_10'', []), (''EMA_10'', []),
         (''current_volatility'', []), (''close'', [])]\<rparr> [] of
            Inl e \<Rightarrow> Inl e
          | Inr m \<Rightarrow> (case save E ''rfregressor_volatility'' m of Some e \<Rightarrow> Inl e | None \<Rightarrow> Inr ()))
     \<and> length (calls (snd (train E 0 (world_of (bars 3))))) =
       (case fit E (Unfitted 10 42 25) \<lparr>index = [], columns =
        [(''log_return_t-1'', []), (''volume_t-1'', []), (''log_return_t-2'', []),
         (''volume_t-2'', []), (''log_return_t-3'', []), (''volume_t-3'', []),
         (''log_return_t-4'', []), (''volume_t-4'', []), (''SMA_10'', []), (''EMA_10'', []),
         (''current_volatility'', []), (''close'', [])]\<rparr> [] of Inl e \<Rightarrow> 1 | Inr m \<Rightarrow> 2)"
proof -
  let ?w = "world_of (bars 3)"
  have nz: "(5::int) \<noteq> 0" by simp
  from train_ok [OF r nz] obtain c0 v0 cv F S X y wA where
    cv: "calculate_non_overlapping_volatility E (fill_both c0) 5 = Inr cv"
    and lcv: "length cv = length (index (objs ?w ! 0))"
    and F: "F = assign_all (assigned_columns E (fill_both c0) (fill_both v0) @
               [(''current_volatility'', cv), (''target_volatility'', shift (- 5) cv)])
             (map_columns bfill (map_columns ffill (objs ?w ! 0)))"
    and iF: "index F = index (objs ?w ! 0)"
    and S: "iloc_step F 5 = Inr S"
    and X: "X = \<lparr>index = index (dropna S),
          columns = map (\<lambda>n. (n, the (col (dropna S) n))) (returned_names @ [''close''])\<rparr>"
    and y: "col (dropna S) ''target_volatility'' = Some y"
    and present: "list_all (\<lambda>n. col (dropna S) n \<noteq> None) (returned_names @ [''close''])"
    and wA: "wA = ?w\<lparr>objs := objs ?w @ [objs ?w ! 0, map_columns ffill (objs ?w ! 0), F, S, S,
                                   dropna S, X],
             calls := calls ?w @ [Fit_call X y]\<rparr>"
    and run: "train E 0 ?w =
       (case fit E (model (self ?w)) X y of
          Inl e \<Rightarrow> (Inl e, wA)
        | Inr m \<Rightarrow>
            (case save E (model_name (self ?w)) m of Some e \<Rightarrow> Inl e | None \<Rightarrow> Inr (),
             wA\<lparr>calls := calls ?w @ [Fit_call X y, Save_call],
                self := (self ?w)\<lparr>model := m\<rparr>\<rparr>))"
    by blast
  have cur: "col F ''current_volatility'' = Some cv" by (simp add: F col_assigned)
  have len: "length (fill_both c0) = length (index F)"
    using length_volatility [OF cv] lcv iF by simp
  have short: "length (index F) < nat 5" by (simp add: iF world_of_simps bars_simps)
  have d: "index (dropna S) = []"
    by (rule short_series_drops_all [OF cv cur len short _ S]) simp
  then have kept: "filter (complete_row S) [0..<length (index S)] = []"
    by (simp add: index_dropna pick_def)
  have gone: "the (col (dropna S) n) = []" if "col (dropna S) n \<noteq> None" for n
    using that by (auto simp: col_dropna kept pick_def)
  have cols: "the (col (dropna S) n) = []" if n: "n \<in> set (returned_names @ [''close''])" for n
  proof -
    have "col (dropna S) n \<noteq> None" using present n unfolding list_all_iff by blast
    then show ?thesis by (rule gone)
  qed
  have y0: "y = []" using y by (auto simp: col_dropna kept pick_def)
  have X0: "X = \<lparr>index = [], columns =
        [(''log_return_t-1'', []), (''volume_t-1'', []), (''log_return_t-2'', []),
         (''volume_t-2'', []), (''log_return_t-3'', []), (''volume_t-3'', []),
         (''log_return_t-4'', []), (''volume_t-4'', []), (''SMA_10'', []), (''EMA_10'', []),
         (''current_volatility'', []), (''close'', [])]\<rparr>"
    unfolding X d using cols by (simp add: returned_names_def)
  show ?thesis
    using run unfolding wA X0 [symmetric] y0
    by (auto simp: world_of_simps split: sum.splits)
qed

text \<open>
  The claim C4 as the specification states it fails. With three bars and a window of
  five, no row is left after sampling and the removal of missing values; \<^verbatim>\<open>train\<close>
  nevertheless calls \<^verbatim>\<open>fit\<close> on the empty table. The failure is the one the estimator
  raises; with an estimator that accepts an empty table \<^verbatim>\<open>train\<close> fits, saves and
  returns normally.
\<close>

theorem train_fits_empty_counterexample:
  "length (index (bars 3)) < 5 \<and>
   fst (train sym_ext 0 (world_of (bars 3))) = Inl (LibraryError ''Found array with 0 sample(s)'') \<and>
   take 1 (calls (snd (train sym_ext 0 (world_of (bars 3))))) =
      [Fit_call \<lparr>index = [], columns =
        [(''log_return_t-1'', []), (''volume_t-1'', []), (''log_return_t-2'', []),
         (''volume_t-2'', []), (''log_return_t-3'', []), (''volume_t-3'', []),
         (''log_return_t-4'', []), (''volume_t-4'', []), (''SMA_10'', []), (''EMA_10'', []),
         (''current_volatility'', []), (''close'', [])]\<rparr> []] \<and>
   fst (train lenient_ext 0 (world_of (bars 3))) = Inr () \<and>
   length (calls (snd (train lenient_ext 0 (world_of (bars 3))))) = 2"
  using train_short_calls [OF ready_bars] train_short_calls [OF ready_lenient]
  by (simp add: bars_simps lenient_simps sym_ext_simps fit_sym_empty)

subsection \<open>The sampler\<close>

text \<open>
  Claim C5. For a positive \<open>window_points\<close> the table \<^verbatim>\<open>df_sampled\<close> holds exactly
  the rows \<open>0, window_points, 2 * window_points, ...\<close> of the table of features: its
  index and every one of its columns are the entries at these positions, so it has
  \<open>(n + window_points - 1) div window_points\<close> rows, the ceiling of
  \<open>n / window_points\<close>. After \<^verbatim>\<open>dropna\<close> no cell of the table is missing; the features
  that \<^verbatim>\<open>train\<close> selects from it and the target, which are what \<^verbatim>\<open>fit\<close> receives, have
  no missing value.
\<close>

theorem sampler_rows:
  assumes "ready E w0 data wp" and "0 < wp"
  shows "\<exists>r w1 X y.
     train E data w0 = (r, w1) \<and>
     index (objs w1 ! local_df_sampled w0) =
       map (\<lambda>j. index (objs w0 ! data) ! (j * nat wp))
         [0..<(length (index (objs w0 ! data)) + nat wp - 1) div nat wp] \<and>
     length (index (objs w1 ! local_df_sampled w0)) =
       (length (index (objs w0 ! data)) + nat wp - 1) div nat wp \<and>
     (\<forall>name c. col (objs w1 ! local_df w0) name = Some c \<longrightarrow>
        col (objs w1 ! local_df_sampled w0) name =
          Some (map (\<lambda>j. c ! (j * nat wp))
            [0..<(length (index (objs w0 ! data)) + nat wp - 1) div nat wp])) \<and>
     objs w1 ! local_dropped w0 = dropna (objs w1 ! local_df_sampled w0) \<and>
     frame_no_missing (objs w1 ! local_dropped w0) \<and>
     Fit_call X y \<in> set (calls w1) \<and>
     map fst (columns X) = returned_names @ [''close''] \<and>
     (\<forall>name \<in> set (returned_names @ [''close'']).
        col X name = col (objs w1 ! local_dropped w0) name) \<and>
     col (objs w1 ! local_dropped w0) ''target_volatility'' = Some y \<and>
     frame_no_missing X \<and>
     no_missing y"
proof -
  let ?f0 = "objs w0 ! data"
  let ?n = "length (index ?f0)"
  let ?w = "nat wp"
  let ?rows = "[0..<(?n + ?w - 1) div ?w]"
  from assms(2) have nz: "wp \<noteq> 0" and w: "0 < ?w" by simp_all
  from train_ok [OF assms(1) nz] obtain c0 v0 cv F S X y wA where
    wfF: "wf_frame F"
    and iF: "index F = index ?f0"
    and S: "iloc_step F wp = Inr S"
    and X: "X = \<lparr>index = index (dropna S),
          columns = map (\<lambda>n. (n, the (col (dropna S) n))) (returned_names @ [''close''])\<rparr>"
    and y: "col (dropna S) ''target_volatility'' = Some y"
    and present: "list_all (\<lambda>n. col (dropna S) n \<noteq> None) (returned_names @ [''close''])"
    and wA: "wA = w0\<lparr>objs := objs w0 @ [?f0, map_columns ffill ?f0, F, S, S, dropna S, X],
             calls := calls w0 @ [Fit_call X y]\<rparr>"
    and run: "train E data w0 =
       (case fit E (model (self w0)) X y of
          Inl e \<Rightarrow> (Inl e, wA)
        | Inr m \<Rightarrow>
            (case save E (model_name (self w0)) m of Some e \<Rightarrow> Inl e | None \<Rightarrow> Inr (),
             wA\<lparr>calls := calls w0 @ [Fit_call X y, Save_call],
                self := (self w0)\<lparr>model := m\<rparr>\<rparr>))"
    by blast
  obtain r w1 where rw: "train E data w0 = (r, w1)" by (cases "train E data w0")
  have objs1: "objs w1 = objs w0 @ [?f0, map_columns ffill ?f0, F, S, S, dropna S, X]"
    and call: "Fit_call X y \<in> set (calls w1)"
    using run rw by (auto simp: wA split: sum.splits)
  have at: "objs w1 ! local_df w0 = F" "objs w1 ! local_df_sampled w0 = S"
    "objs w1 ! local_dropped w0 = dropna S"
    by (simp_all add: objs1 local_df_def local_df_sampled_def local_dropped_def nth_append)
  have idx: "index S = map (\<lambda>j. index ?f0 ! (j * ?w)) ?rows"
    using iloc_step_positive(1) [OF S assms(2)] every_nth_positions [OF w, of "index F"] iF
    by simp
  have cols: "col S name = Some (map (\<lambda>j. c ! (j * ?w)) ?rows)" if c: "col F name = Some c" for name c
  proof -
    have "length c = ?n" using col_length [OF wfF c] iF by simp
    then show ?thesis
      using iloc_step_positive(2) [OF S assms(2), of name] c every_nth_positions [OF w, of c]
      by simp
  qed
  have inD: "col (dropna S) n \<noteq> None" if "n \<in> set (returned_names @ [''close''])" for n
    using present that unfolding list_all_iff by blast
  have names: "map fst (columns X) = returned_names @ [''close'']"
    by (simp add: X comp_def)
  have same: "col X name = col (dropna S) name" if n: "name \<in> set (returned_names @ [''close''])" for name
  proof -
    obtain c where c: "col (dropna S) name = Some c" using inD [OF n] by auto
    have "col X name = Some (the (col (dropna S) name))"
      unfolding X by (rule col_selected [OF n])
    with c show ?thesis by simp
  qed
  have Xfull: "frame_no_missing X"
    unfolding X by (rule selected_no_missing [OF dropna_no_missing inD])
  have yfull: "no_missing y"
    by (rule col_no_missing [OF dropna_no_missing y])
  show ?thesis
    apply (rule exI [of _ r], rule exI [of _ w1], rule exI [of _ X], rule exI [of _ y])
    unfolding at
    apply (intro conjI)
    subgoal by (fact rw)
    subgoal by (fact idx)
    subgoal by (simp add: idx)
    subgoal using cols by blast
    subgoal by (rule refl)
    subgoal by (rule dropna_no_missing)
    subgoal by (fact call)
    subgoal by (fact names)
    subgoal using same by blast
    subgoal by (fact y)
    subgoal by (fact Xfull)
    subgoal by (fact yfull)
    done
qed

subsection \<open>Inference\<close>

lemma inference_have_columns:
  assumes "F = assign_all (assigned_columns E close volume @ [(''current_volatility'', cv)]) f"
    and "col f ''close'' \<noteq> None"
    and "n \<in> set (returned_names @ [''close''])"
  shows "col F n \<noteq> None"
proof -
  have "set returned_names \<subseteq> set (take 10 returned_names) \<union> {''current_volatility''}"
    by (simp add: returned_names_def)
  then have "n = ''close'' \<or>
      n \<in> set (map fst (assigned_columns E close volume @ [(''current_volatility'', cv)]))"
    using assms(3) by (auto simp: assigned_names)
  then show ?thesis
    unfolding assms(1) using assms(2) by (intro col_assign_all_present) blast
qed

lemma inference_ok:
  assumes "ready E w0 df wp" and "wp \<noteq> 0"
  shows "\<exists>c0 v0 cv F sel X wP.
     col (objs w0 ! df) ''close'' = Some c0 \<and>
     col (objs w0 ! df) ''volume'' = Some v0 \<and>
     calculate_non_overlapping_volatility E (fill_both c0) wp = Inr cv \<and>
     F = assign_all (assigned_columns E (fill_both c0) (fill_both v0) @
               [(''current_volatility'', cv)])
             (map_columns bfill (map_columns ffill (objs w0 ! df))) \<and>
     wf_frame F \<and>
     index F = index (objs w0 ! df) \<and>
     list_all (\<lambda>n. col F n \<noteq> None) (returned_names @ [''close'']) \<and>
     sel = \<lparr>index = index F,
            columns = map (\<lambda>n. (n, the (col F n))) (returned_names @ [''close''])\<rparr> \<and>
     X = map_columns (fill_zero (zero E)) sel \<and>
     wP = w0\<lparr>objs := objs w0 @ [objs w0 ! df, map_columns ffill (objs w0 ! df), F, sel, X],
                   calls := calls w0 @ [Predict_call X]\<rparr> \<and>
     inference E df w0 =
       (case predict E (model (self w0)) X of
          Inl e \<Rightarrow> (Inl e, wP)
        | Inr predictions \<Rightarrow>
            if length predictions \<noteq> length (index X)
            then (Inl (ValueError ''Length of values does not match length of index''), wP)
            else (Inr (length (objs w0) + 5),
               wP\<lparr>objs := objs wP @
                  [\<lparr>index = index X, columns = [(''prediction'', predictions)]\<rparr>]\<rparr>))"
proof -
  let ?f0 = "objs w0 ! df"
  let ?n = "length (index ?f0)"
  let ?names = "returned_names @ [''close'']"
  from assms(1) have valid: "df < length (objs w0)" and wf: "wf_frame ?f0"
    and tdr: "timedelta_ratio E (self_volatility_window (self w0)) (self_candle_interval (self w0)) = Inr wp"
    by (simp_all add: ready_def)
  from assms(1) obtain c0 v0 where
    close: "col ?f0 ''close'' = Some c0" and volume: "col ?f0 ''volume'' = Some v0"
    by (auto simp: ready_def)
  have lc: "length c0 = ?n" and lv: "length v0 = ?n"
    using col_length [OF wf close] col_length [OF wf volume] by simp_all
  obtain cv where cv: "calculate_non_overlapping_volatility E (fill_both c0) wp = Inr cv"
    using volatility_returns [OF assms(2)] by blast
  have lcv: "length cv = ?n"
    using length_volatility [OF cv] lc by (simp add: length_fill_both)
  define F where "F = assign_all (assigned_columns E (fill_both c0) (fill_both v0) @
               [(''current_volatility'', cv)])
             (map_columns bfill (map_columns ffill ?f0))"
  define sel where "sel = \<lparr>index = index F, columns = map (\<lambda>n. (n, the (col F n))) ?names\<rparr>"
  define X where "X = map_columns (fill_zero (zero E)) sel"
  define wP where "wP = w0\<lparr>objs := objs w0 @ [?f0, map_columns ffill ?f0, F, sel, X],
                   calls := calls w0 @ [Predict_call X]\<rparr>"
  have wf2: "wf_frame (map_columns bfill (map_columns ffill ?f0))"
    by (intro wf_map_columns wf length_ffill length_bfill)
  have wfF: "wf_frame F"
    unfolding F_def
    by (rule wf_assign_all [OF wf2])
       (simp add: index_map_columns lengths_assigned_columns length_fill_both lc lv lcv)
  have iF: "index F = index ?f0"
    by (simp add: F_def index_assign_all index_map_columns)
  have inF: "col F n \<noteq> None" if "n \<in> set ?names" for n
    by (rule inference_have_columns [OF F_def _ that]) (simp add: col_map_columns close)
  have present: "list_all (\<lambda>n. col F n \<noteq> None) ?names"
    unfolding list_all_iff by (intro ballI inF)
  have sel: "select F [''log_return_t-1'', ''volume_t-1'', ''log_return_t-2'', ''volume_t-2'',
        ''log_return_t-3'', ''volume_t-3'', ''log_return_t-4'', ''volume_t-4'',
        ''SMA_10'', ''EMA_10'', ''current_volatility'', ''close''] = Inr sel"
  proof -
    have "select F ?names = Inr sel"
      unfolding sel_def by (rule select_returns) (rule inF)
    then show ?thesis by (simp add: returned_names_def)
  qed
  have run: "inference E df w0 =
       (case predict E (model (self w0)) X of
          Inl e \<Rightarrow> (Inl e, wP)
        | Inr predictions \<Rightarrow>
            if length predictions \<noteq> length (index X)
            then (Inl (ValueError ''Length of values does not match length of index''), wP)
            else (Inr (length (objs w0) + 5),
               wP\<lparr>objs := objs wP @
                  [\<lparr>index = index X, columns = [(''prediction'', predictions)]\<rparr>]\<rparr>))"
    by (rule inference_run [OF valid close volume tdr cv F_def sel X_def wP_def])
  show ?thesis
    apply (rule exI [of _ c0], rule exI [of _ v0], rule exI [of _ cv], rule exI [of _ F])
    apply (rule exI [of _ sel], rule exI [of _ X], rule exI [of _ wP])
    apply (intro conjI)
    subgoal by (fact close)
    subgoal by (fact volume)
    subgoal by (fact cv)
    subgoal by (fact F_def)
    subgoal by (fact wfF)
    subgoal by (fact iF)
    subgoal by (fact present)
    subgoal by (fact sel_def)
    subgoal by (fact X_def)
    subgoal by (fact wP_def)
    subgoal by (fact run)
    done
qed

text \<open>
  Claim C6. \<^verbatim>\<open>inference\<close> computes the features on every row of the input: the table
  \<open>X\<close> that it hands to \<^verbatim>\<open>predict\<close> has the index of the input, the columns of the
  feature list with \<^verbatim>\<open>close\<close> last and no target, and each of its cells is the cell of
  the local table \<^verbatim>\<open>df\<close>, or zero where that cell is missing. When \<^verbatim>\<open>inference\<close>
  returns, the table it returns has the index of the input and one prediction for each
  row; it returns whenever the estimator answers with one prediction for each row, and
  otherwise raises what the estimator raised (or the length mismatch).
\<close>

theorem inference_rows:
  assumes "ready E w0 input_data wp" and "wp \<noteq> 0"
  shows "\<exists>X r w1.
     inference E input_data w0 = (r, w1) \<and>
     objs w1 ! local_features w0 = X \<and>
     calls w1 = calls w0 @ [Predict_call X] \<and>
     index X = index (objs w0 ! input_data) \<and>
     map fst (columns X) = returned_names @ [''close''] \<and>
     ''target_volatility'' \<notin> set (map fst (columns X)) \<and>
     frame_no_missing X \<and>
     (\<forall>name \<in> set (returned_names @ [''close'']).
        \<exists>c x. col (objs w1 ! local_df w0) name = Some c \<and> col X name = Some x \<and>
          length c = length (index (objs w0 ! input_data)) \<and>
          length x = length (index (objs w0 ! input_data)) \<and>
          (\<forall>t < length (index (objs w0 ! input_data)).
             x ! t = (case c ! t of None \<Rightarrow> Some (zero E) | Some v \<Rightarrow> Some v))) \<and>
     (case r of
        Inr p \<Rightarrow>
          (\<exists>predictions.
             predict E (model (self w0)) X = Inr predictions \<and>
             length predictions = length (index (objs w0 ! input_data)) \<and>
             objs w1 ! p = \<lparr>index = index (objs w0 ! input_data),
                             columns = [(''prediction'', predictions)]\<rparr>)
      | Inl e \<Rightarrow>
          predict E (model (self w0)) X = Inl e \<or>
          (\<exists>predictions. predict E (model (self w0)) X = Inr predictions \<and>
             length predictions \<noteq> length (index (objs w0 ! input_data)))) \<and>
     (\<forall>predictions.
        predict E (model (self w0)) X = Inr predictions \<and>
        length predictions = length (index (objs w0 ! input_data)) \<longrightarrow> (\<exists>p. r = Inr p))"
proof -
  let ?f0 = "objs w0 ! input_data"
  let ?n = "length (index ?f0)"
  let ?names = "returned_names @ [''close'']"
  from inference_ok [OF assms] obtain c0 v0 cv F sel X wP where
    wfF: "wf_frame F"
    and iF: "index F = index ?f0"
    and present: "list_all (\<lambda>n. col F n \<noteq> None) ?names"
    and sel: "sel = \<lparr>index = index F, columns = map (\<lambda>n. (n, the (col F n))) ?names\<rparr>"
    and X: "X = map_columns (fill_zero (zero E)) sel"
    and wP: "wP = w0\<lparr>objs := objs w0 @ [?f0, map_columns ffill ?f0, F, sel, X],
                   calls := calls w0 @ [Predict_call X]\<rparr>"
    and run: "inference E input_data w0 =
       (case predict E (model (self w0)) X of
          Inl e \<Rightarrow> (Inl e, wP)
        | Inr predictions \<Rightarrow>
            if length predictions \<noteq> length (index X)
            then (Inl (ValueError ''Length of values does not match length of index''), wP)
            else (Inr (length (objs w0) + 5),
               wP\<lparr>objs := objs wP @
                  [\<lparr>index = index X, columns = [(''prediction'', predictions)]\<rparr>]\<rparr>))"
    by blast
  obtain r w1 where rw: "inference E input_data w0 = (r, w1)" by (cases "inference E input_data w0")
  have iX: "index X = index ?f0" by (simp add: X sel index_map_columns iF)
  have w1: "take (length (objs w0) + 5) (objs w1) = objs w0 @ [?f0, map_columns ffill ?f0, F, sel, X]"
    and calls1: "calls w1 = calls w0 @ [Predict_call X]"
    using run rw by (auto simp: wP split: sum.splits if_splits)
  have nth1: "objs w1 ! k = (objs w0 @ [?f0, map_columns ffill ?f0, F, sel, X]) ! k"
    if "k < length (objs w0) + 5" for k
    using nth_take [OF that, of "objs w1"] w1 by simp
  have at: "objs w1 ! local_features w0 = X" "objs w1 ! local_df w0 = F"
    by (simp_all add: nth1 local_features_def local_df_def nth_append)
  have names: "map fst (columns X) = ?names"
    by (simp add: X sel map_columns_names comp_def)
  have notarget: "''target_volatility'' \<notin> set (map fst (columns X))"
    unfolding names by (simp add: returned_names_def)
  have full: "frame_no_missing X"
    unfolding X by (rule map_columns_fill_zero_no_missing)
  have cells: "\<exists>c x. col F name = Some c \<and> col X name = Some x \<and>
          length c = ?n \<and> length x = ?n \<and>
          (\<forall>t < ?n. x ! t = (case c ! t of None \<Rightarrow> Some (zero E) | Some v \<Rightarrow> Some v))"
    if n: "name \<in> set ?names" for name
  proof -
    have "col F name \<noteq> None" using present n unfolding list_all_iff by blast
    then obtain c where c: "col F name = Some c" by auto
    have lc: "length c = ?n" using col_length [OF wfF c] iF by simp
    have "col sel name = Some (the (col F name))"
      unfolding sel by (rule col_selected [OF n])
    then have x: "col X name = Some (fill_zero (zero E) c)"
      by (simp add: X col_map_columns c)
    show ?thesis
      using c x lc by (simp add: length_fill_zero nth_fill_zero)
  qed
  have outcome: "case r of
        Inr p \<Rightarrow>
          (\<exists>predictions.
             predict E (model (self w0)) X = Inr predictions \<and>
             length predictions = ?n \<and>
             objs w1 ! p = \<lparr>index = index ?f0, columns = [(''prediction'', predictions)]\<rparr>)
      | Inl e \<Rightarrow>
          predict E (model (self w0)) X = Inl e \<or>
          (\<exists>predictions. predict E (model (self w0)) X = Inr predictions \<and>
             length predictions \<noteq> ?n)"
    using run rw by (auto simp: wP iX nth_append split: sum.splits if_splits)
  have returns: "\<exists>p. r = Inr p"
    if "predict E (model (self w0)) X = Inr predictions" "length predictions = ?n" for predictions
    using run rw that by (simp add: iX)
  show ?thesis
    apply (rule exI [of _ X], rule exI [of _ r], rule exI [of _ w1])
    unfolding at
    apply (intro conjI)
    subgoal by (fact rw)
    subgoal by (rule refl)
    subgoal by (fact calls1)
    subgoal by (fact iX)
    subgoal by (fact names)
    subgoal by (fact notarget)
    subgoal by (fact full)
    subgoal using cells by blast
    subgoal by (fact outcome)
    subgoal using returns by blast
    done
qed

lemma ready_fitted: "ready sym_ext (fitted_world_of (bars n)) 0 5"
  by (simp add: ready_def fitted_world_of_def world_of_simps bars_simps timedelta_sym)

lemma predict_sym_fitted:
  "index X \<noteq> [] \<Longrightarrow>
   predict sym_ext (Fitted X0 y0) X = Inr (map (\<lambda>row. Some (Prediction (present row))) (rows_of X))"
  by (simp add: sym_ext_def)

subsection \<open>Two calls on the same table\<close>

lemma features_two_worlds:
  assumes valid: "df < length (objs w)" "df' < length (objs w')"
    and same: "objs w' ! df' = objs w ! df"
    "self_volatility_window (self w') = self_volatility_window (self w)"
    "self_candle_interval (self w') = self_candle_interval (self w)"
  shows "\<exists>res news.
     calculate_volatility_features E df w =
       (case res of Inl e \<Rightarrow> Inl e | Inr k \<Rightarrow> Inr (length (objs w) + k, returned_names),
        w\<lparr>objs := objs w @ news\<rparr>) \<and>
     calculate_volatility_features E df' w' =
       (case res of Inl e \<Rightarrow> Inl e | Inr k \<Rightarrow> Inr (length (objs w') + k, returned_names),
        w'\<lparr>objs := objs w' @ news\<rparr>) \<and>
     (case res of Inl e \<Rightarrow> True | Inr k \<Rightarrow> k = 4 \<and> length news = 5)"
proof -
  let ?f0 = "objs w ! df"
  let ?tdr = "timedelta_ratio E (self_volatility_window (self w)) (self_candle_interval (self w))"
  have tdr': "timedelta_ratio E (self_volatility_window (self w')) (self_candle_interval (self w')) = ?tdr"
    by (simp add: same)
  show ?thesis
  proof (cases ?tdr)
    case (Inl e)
    show ?thesis
      apply (rule exI [of _ "Inl e"])
      apply (rule exI [of _ "[?f0, map_columns ffill ?f0, map_columns bfill (map_columns ffill ?f0)]"])
      using features_fail_ratio [of E w e df] features_fail_ratio [of E w' e df'] Inl tdr' same(1)
      by simp
  next
    case (Inr wp)
    then have r': "timedelta_ratio E (self_volatility_window (self w')) (self_candle_interval (self w')) = Inr wp"
      using tdr' by simp
    show ?thesis
    proof (cases "col ?f0 ''close''")
      case None
      show ?thesis
        apply (rule exI [of _ "Inl (KeyError ''close'')"])
        apply (rule exI [of _ "[?f0, map_columns ffill ?f0, map_columns bfill (map_columns ffill ?f0)]"])
        using features_fail_close [OF valid(1) Inr None] features_fail_close [OF valid(2) r'] None same(1)
        by simp
    next
      case close: (Some c0)
      show ?thesis
      proof (cases "col ?f0 ''volume''")
        case None
        show ?thesis
          apply (rule exI [of _ "Inl (KeyError ''volume'')"])
          apply (rule exI [of _ "[?f0, map_columns ffill ?f0,
              assign_all (take 2 (assigned_columns E (fill_both c0) []))
                (map_columns bfill (map_columns ffill ?f0))]"])
          using features_fail_volume [OF valid(1) Inr close None]
            features_fail_volume [OF valid(2) r', of c0] close None same(1)
          by simp
      next
        case volume: (Some v0)
        show ?thesis
        proof (cases "calculate_non_overlapping_volatility E (fill_both c0) wp")
          case (Inl e)
          show ?thesis
            apply (rule exI [of _ "Inl e"])
            apply (rule exI [of _ "[?f0, map_columns ffill ?f0,
                assign_all (assigned_columns E (fill_both c0) (fill_both v0))
                  (map_columns bfill (map_columns ffill ?f0))]"])
            using features_fail_volatility [OF valid(1) Inr close volume Inl]
              features_fail_volatility [OF valid(2) r', of c0 v0 e] close volume Inl same(1)
            by simp
        next
          case cv: (Inr cv)
          define F where "F = assign_all (assigned_columns E (fill_both c0) (fill_both v0) @
               [(''current_volatility'', cv), (''target_volatility'', shift (- 5) cv)])
             (map_columns bfill (map_columns ffill ?f0))"
          have "wp \<noteq> 0" using cv volatility_fails [of E "fill_both c0"] by auto
          then obtain S where S: "iloc_step F wp = Inr S"
            using iloc_step_returns by blast
          have F': "F = assign_all (assigned_columns E (fill_both c0) (fill_both v0) @
               [(''current_volatility'', cv), (''target_volatility'', shift (- 5) cv)])
             (map_columns bfill (map_columns ffill (objs w' ! df')))"
            by (simp add: F_def same(1))
          have c': "col (objs w' ! df') ''close'' = Some c0" "col (objs w' ! df') ''volume'' = Some v0"
            using close volume same(1) by simp_all
          have one: "calculate_volatility_features E df w =
              (Inr (length (objs w) + 4, returned_names),
               w\<lparr>objs := objs w @ [?f0, map_columns ffill ?f0, F, S, S]\<rparr>)"
            unfolding returned_names_def
            by (rule features_run [OF valid(1) close volume Inr cv F_def S])
          have two: "calculate_volatility_features E df' w' =
              (Inr (length (objs w') + 4, returned_names),
               w'\<lparr>objs := objs w' @ [objs w' ! df', map_columns ffill (objs w' ! df'), F, S, S]\<rparr>)"
            unfolding returned_names_def
            by (rule features_run [OF valid(2) c' r' cv F' S])
          show ?thesis
            apply (rule exI [of _ "Inr 4"])
            apply (rule exI [of _ "[?f0, map_columns ffill ?f0, F, S, S]"])
            using one two same(1) by simp
        qed
      qed
    qed
  qed
qed

text \<open>
  Claim C8. Two calls of \<^verbatim>\<open>_calculate_volatility_features\<close> on the same table, the
  second in the world that the first leaves behind, have the same outcome: the same
  exception, or the same list of feature names and equal tables \<^verbatim>\<open>df_sampled\<close>. The
  first call changes neither the wrapper nor the table it was given, and the second
  does not change the table that the first returned.
\<close>

theorem features_deterministic:
  assumes "df < length (objs w0)"
  shows "\<exists>r1 w1 r2 w2.
     calculate_volatility_features E df w0 = (r1, w1) \<and>
     calculate_volatility_features E df w1 = (r2, w2) \<and>
     self w1 = self w0 \<and>
     objs w1 ! df = objs w0 ! df \<and>
     (case r1 of
        Inl e \<Rightarrow> r2 = Inl e
      | Inr out1 \<Rightarrow>
          (\<exists>s2. r2 = Inr (s2, snd out1) \<and>
             objs w2 ! s2 = objs w1 ! fst out1 \<and>
             objs w2 ! fst out1 = objs w1 ! fst out1))"
proof -
  obtain r1 w1 where first: "calculate_volatility_features E df w0 = (r1, w1)"
    by (cases "calculate_volatility_features E df w0")
  from features_two_worlds [OF assms assms refl refl refl, of E]
  obtain res0 news0 where
    w1: "w1 = w0\<lparr>objs := objs w0 @ news0\<rparr>"
    using first by auto
  have valid1: "df < length (objs w1)" and same: "objs w1 ! df = objs w0 ! df"
    and self1: "self w1 = self w0"
    using assms by (simp_all add: w1 nth_append)
  from features_two_worlds [OF assms valid1 same, of E] self1
  obtain res news where
    one: "calculate_volatility_features E df w0 =
       (case res of Inl e \<Rightarrow> Inl e | Inr k \<Rightarrow> Inr (length (objs w0) + k, returned_names),
        w0\<lparr>objs := objs w0 @ news\<rparr>)"
    and two: "calculate_volatility_features E df w1 =
       (case res of Inl e \<Rightarrow> Inl e | Inr k \<Rightarrow> Inr (length (objs w1) + k, returned_names),
        w1\<lparr>objs := objs w1 @ news\<rparr>)"
    and shape: "case res of Inl e \<Rightarrow> True | Inr k \<Rightarrow> k = 4 \<and> length news = 5"
    by auto
  have r1: "r1 = (case res of Inl e \<Rightarrow> Inl e | Inr k \<Rightarrow> Inr (length (objs w0) + k, returned_names))"
    and o1: "objs w1 = objs w0 @ news"
  proof -
    have eq: "(r1, w1) = (case res of Inl e \<Rightarrow> Inl e
        | Inr k \<Rightarrow> Inr (length (objs w0) + k, returned_names), w0\<lparr>objs := objs w0 @ news\<rparr>)"
      using one first by simp
    then show "r1 = (case res of Inl e \<Rightarrow> Inl e
        | Inr k \<Rightarrow> Inr (length (objs w0) + k, returned_names))" by simp
    from eq have "w1 = w0\<lparr>objs := objs w0 @ news\<rparr>" by simp
    then show "objs w1 = objs w0 @ news" by simp
  qed
  define r2 where "r2 = (case res of Inl e \<Rightarrow> Inl e
      | Inr k \<Rightarrow> Inr (length (objs w1) + k, returned_names))"
  define w2 where "w2 = w1\<lparr>objs := objs w1 @ news\<rparr>"
  have second: "calculate_volatility_features E df w1 = (r2, w2)"
    using two by (simp add: r2_def w2_def)
  have rel: "case r1 of
        Inl e \<Rightarrow> r2 = Inl e
      | Inr out1 \<Rightarrow>
          (\<exists>s2. r2 = Inr (s2, snd out1) \<and>
             objs w2 ! s2 = objs w1 ! fst out1 \<and>
             objs w2 ! fst out1 = objs w1 ! fst out1)"
  proof (cases res)
    case (Inl e)
    then show ?thesis by (simp add: r1 r2_def)
  next
    case (Inr k)
    then have k: "k = 4" "length news = 5" using shape by simp_all
    show ?thesis
      using Inr k by (simp add: r1 r2_def w2_def o1 nth_append)
  qed
  show ?thesis
    using first second self1 same rel by blast
qed

theorem features_deterministic_witness:
  "0 < length (objs (world_of (bars 12))) \<and>
   fst (calculate_volatility_features sym_ext 0 (world_of (bars 12))) = Inr (5, returned_names) \<and>
   (\<exists>s2.
      fst (calculate_volatility_features sym_ext 0
            (snd (calculate_volatility_features sym_ext 0 (world_of (bars 12))))) =
        Inr (s2, returned_names) \<and>
      objs (snd (calculate_volatility_features sym_ext 0
            (snd (calculate_volatility_features sym_ext 0 (world_of (bars 12)))))) ! s2 =
        objs (snd (calculate_volatility_features sym_ext 0 (world_of (bars 12)))) ! 5)"
proof -
  let ?w = "world_of (bars 12)"
  have v: "0 < length (objs ?w)" by (simp add: world_of_simps)
  have nz: "(5::int) \<noteq> 0" by simp
  from features_ok [OF ready_bars nz, of 12]
  have first: "fst (calculate_volatility_features sym_ext 0 ?w) = Inr (5, returned_names)"
    by (auto simp: world_of_simps)
  from features_deterministic [OF v, of sym_ext]
  obtain r1 w1 r2 w2 where
    a: "calculate_volatility_features sym_ext 0 ?w = (r1, w1)"
    and b: "calculate_volatility_features sym_ext 0 w1 = (r2, w2)"
    and rel: "case r1 of
        Inl e \<Rightarrow> r2 = Inl e
      | Inr out1 \<Rightarrow>
          (\<exists>s2. r2 = Inr (s2, snd out1) \<and>
             objs w2 ! s2 = objs w1 ! fst out1 \<and>
             objs w2 ! fst out1 = objs w1 ! fst out1)"
    by blast
  have "r1 = Inr (5, returned_names)" using first a by simp
  with rel obtain s2 where "r2 = Inr (s2, returned_names)" "objs w2 ! s2 = objs w1 ! 5"
    by auto
  then show ?thesis using v first a b by auto
qed

subsection \<open>The two paths\<close>

text \<open>
  Claim C10. On the same bars, each column of the returned feature list (the lagged
  log-returns and volumes, \<^verbatim>\<open>SMA_10\<close>, \<^verbatim>\<open>EMA_10\<close> and \<^verbatim>\<open>current_volatility\<close>) is the same
  column in the local table \<^verbatim>\<open>df\<close> of \<^verbatim>\<open>inference\<close> as in the table that
  \<^verbatim>\<open>_calculate_volatility_features\<close> builds before it samples. The columns that
  \<^verbatim>\<open>inference\<close> selects are the returned names with \<^verbatim>\<open>close\<close> last, and so are the
  columns that \<^verbatim>\<open>train\<close> hands to \<^verbatim>\<open>fit\<close>.
\<close>

theorem paths_agree:
  assumes "ready E w0 df wp" and "wp \<noteq> 0"
  shows "\<exists>df_sampled names w_train r w_inf r' w_fit X_train y.
     calculate_volatility_features E df w0 = (Inr (df_sampled, names), w_train) \<and>
     inference E df w0 = (r, w_inf) \<and>
     train E df w0 = (r', w_fit) \<and>
     names = returned_names \<and>
     (\<forall>name \<in> set names.
        col (objs w_inf ! local_df w0) name \<noteq> None \<and>
        col (objs w_inf ! local_df w0) name = col (objs w_train ! local_df w0) name) \<and>
     map fst (columns (objs w_inf ! local_features w0)) = names @ [''close''] \<and>
     Fit_call X_train y \<in> set (calls w_fit) \<and>
     map fst (columns X_train) = names @ [''close'']"
proof -
  let ?f0 = "objs w0 ! df"
  let ?f2 = "map_columns bfill (map_columns ffill ?f0)"
  from train_ok [OF assms] obtain c0 v0 cv F S X y wA where
    close: "col ?f0 ''close'' = Some c0"
    and cv: "calculate_non_overlapping_volatility E (fill_both c0) wp = Inr cv"
    and F: "F = assign_all (assigned_columns E (fill_both c0) (fill_both v0) @
               [(''current_volatility'', cv), (''target_volatility'', shift (- 5) cv)]) ?f2"
    and X: "X = \<lparr>index = index (dropna S),
          columns = map (\<lambda>n. (n, the (col (dropna S) n))) (returned_names @ [''close''])\<rparr>"
    and wA: "wA = w0\<lparr>objs := objs w0 @ [?f0, map_columns ffill ?f0, F, S, S, dropna S, X],
             calls := calls w0 @ [Fit_call X y]\<rparr>"
    and trn: "train E df w0 =
       (case fit E (model (self w0)) X y of
          Inl e \<Rightarrow> (Inl e, wA)
        | Inr m \<Rightarrow>
            (case save E (model_name (self w0)) m of Some e \<Rightarrow> Inl e | None \<Rightarrow> Inr (),
             wA\<lparr>calls := calls w0 @ [Fit_call X y, Save_call],
                self := (self w0)\<lparr>model := m\<rparr>\<rparr>))"
    by blast
  from features_ok [OF assms] obtain c1 v1 cv1 F1 S1 where
    close1: "col ?f0 ''close'' = Some c1" and vol1: "col ?f0 ''volume'' = Some v1"
    and cv1: "calculate_non_overlapping_volatility E (fill_both c1) wp = Inr cv1"
    and F1: "F1 = assign_all (assigned_columns E (fill_both c1) (fill_both v1) @
               [(''current_volatility'', cv1), (''target_volatility'', shift (- 5) cv1)]) ?f2"
    and run: "calculate_volatility_features E df w0 =
       (Inr (length (objs w0) + 4, returned_names),
        w0\<lparr>objs := objs w0 @ [?f0, map_columns ffill ?f0, F1, S1, S1]\<rparr>)"
    by blast
  from inference_ok [OF assms] obtain c2 v2 cv2 F2 sel2 X2 wP where
    close2: "col ?f0 ''close'' = Some c2" and vol2: "col ?f0 ''volume'' = Some v2"
    and cv2: "calculate_non_overlapping_volatility E (fill_both c2) wp = Inr cv2"
    and F2: "F2 = assign_all (assigned_columns E (fill_both c2) (fill_both v2) @
               [(''current_volatility'', cv2)]) ?f2"
    and present: "list_all (\<lambda>n. col F2 n \<noteq> None) (returned_names @ [''close''])"
    and sel2: "sel2 = \<lparr>index = index F2,
            columns = map (\<lambda>n. (n, the (col F2 n))) (returned_names @ [''close''])\<rparr>"
    and X2: "X2 = map_columns (fill_zero (zero E)) sel2"
    and wP: "wP = w0\<lparr>objs := objs w0 @ [?f0, map_columns ffill ?f0, F2, sel2, X2],
                   calls := calls w0 @ [Predict_call X2]\<rparr>"
    and inf: "inference E df w0 =
       (case predict E (model (self w0)) X2 of
          Inl e \<Rightarrow> (Inl e, wP)
        | Inr predictions \<Rightarrow>
            if length predictions \<noteq> length (index X2)
            then (Inl (ValueError ''Length of values does not match length of index''), wP)
            else (Inr (length (objs w0) + 5),
               wP\<lparr>objs := objs wP @
                  [\<lparr>index = index X2, columns = [(''prediction'', predictions)]\<rparr>]\<rparr>))"
    by blast
  have same: "c2 = c1" "v2 = v1" "cv2 = cv1"
    using close1 close2 vol1 vol2 cv1 cv2 by simp_all
  obtain r w_inf where rw: "inference E df w0 = (r, w_inf)" by (cases "inference E df w0")
  obtain r' w_fit where rf: "train E df w0 = (r', w_fit)" by (cases "train E df w0")
  let ?w_train = "w0\<lparr>objs := objs w0 @ [?f0, map_columns ffill ?f0, F1, S1, S1]\<rparr>"
  have pre: "take (length (objs w0) + 5) (objs w_inf) =
      objs w0 @ [?f0, map_columns ffill ?f0, F2, sel2, X2]"
    using inf rw by (auto simp: wP split: sum.splits if_splits)
  have nth_inf: "objs w_inf ! k = (objs w0 @ [?f0, map_columns ffill ?f0, F2, sel2, X2]) ! k"
    if "k < length (objs w0) + 5" for k
    using nth_take [OF that, of "objs w_inf"] pre by simp
  have at: "objs w_inf ! local_df w0 = F2" "objs w_inf ! local_features w0 = X2"
    "objs ?w_train ! local_df w0 = F1"
    by (simp_all add: nth_inf local_df_def local_features_def nth_append)
  have call: "Fit_call X y \<in> set (calls w_fit)"
    using trn rf by (auto simp: wA split: sum.splits)
  have agree: "col F2 name \<noteq> None \<and> col F2 name = col F1 name"
    if n: "name \<in> set returned_names" for name
  proof -
    have "col F2 name \<noteq> None" using present n unfolding list_all_iff by simp
    moreover have "name \<noteq> ''target_volatility''"
      using n by (auto simp: returned_names_def)
    then have "col F2 name = col F1 name"
      unfolding F1 F2 same by (simp add: col_assigned split: option.splits)
    ultimately show ?thesis by simp
  qed
  have names2: "map fst (columns X2) = returned_names @ [''close'']"
    by (simp add: X2 sel2 map_columns_names comp_def)
  have names1: "map fst (columns X) = returned_names @ [''close'']"
    by (simp add: X comp_def)
  show ?thesis
    apply (rule exI [of _ "length (objs w0) + 4"], rule exI [of _ returned_names])
    apply (rule exI [of _ ?w_train], rule exI [of _ r], rule exI [of _ w_inf])
    apply (rule exI [of _ r'], rule exI [of _ w_fit], rule exI [of _ X], rule exI [of _ y])
    unfolding at
    apply (intro conjI)
    subgoal by (fact run)
    subgoal by (fact rw)
    subgoal by (fact rf)
    subgoal by (rule refl)
    subgoal using agree by blast
    subgoal by (fact names2)
    subgoal by (fact call)
    subgoal by (fact names1)
    done
qed

theorem paths_agree_witness:
  "ready sym_ext (world_of (bars 12)) 0 5 \<and> (5::int) \<noteq> 0 \<and>
   (\<exists>df_sampled w_train r w_inf.
     calculate_volatility_features sym_ext 0 (world_of (bars 12)) =
       (Inr (df_sampled, returned_names), w_train) \<and>
     inference sym_ext 0 (world_of (bars 12)) = (r, w_inf) \<and>
     col (objs w_inf ! local_df (world_of (bars 12))) ''SMA_10'' =
       col (objs w_train ! local_df (world_of (bars 12))) ''SMA_10'' \<and>
     col (objs w_inf ! local_df (world_of (bars 12))) ''log_return_t-3'' =
       col (objs w_train ! local_df (world_of (bars 12))) ''log_return_t-3'' \<and>
     map fst (columns (objs w_inf ! local_features (world_of (bars 12)))) =
       [''log_return_t-1'', ''volume_t-1'', ''log_return_t-2'', ''volume_t-2'',
        ''log_return_t-3'', ''volume_t-3'', ''log_return_t-4'', ''volume_t-4'',
        ''SMA_10'', ''EMA_10'', ''current_volatility'', ''close''])"
proof -
  let ?w = "world_of (bars 12)"
  have r: "ready sym_ext ?w 0 5" by (rule ready_bars)
  have nz: "(5::int) \<noteq> 0" by simp
  from paths_agree [OF r nz]
  obtain df_sampled names w_train res w_inf where
    a: "calculate_volatility_features sym_ext 0 ?w = (Inr (df_sampled, names), w_train)"
    and b: "inference sym_ext 0 ?w = (res, w_inf)"
    and n: "names = returned_names"
    and agree: "\<forall>name \<in> set names.
        col (objs w_inf ! local_df ?w) name \<noteq> None \<and>
        col (objs w_inf ! local_df ?w) name = col (objs w_train ! local_df ?w) name"
    and cols: "map fst (columns (objs w_inf ! local_features ?w)) = names @ [''close'']"
    by (elim exE conjE) (rule that, assumption+)
  have "''SMA_10'' \<in> set names" "''log_return_t-3'' \<in> set names"
    by (simp_all add: n returned_names_def)
  then have "col (objs w_inf ! local_df ?w) ''SMA_10'' = col (objs w_train ! local_df ?w) ''SMA_10''"
    "col (objs w_inf ! local_df ?w) ''log_return_t-3'' =
       col (objs w_train ! local_df ?w) ''log_return_t-3''"
    using agree by blast+
  then show ?thesis
    using r a b cols unfolding n by (auto simp: returned_names_def)
qed

subsection \<open>The caller's table\<close>

lemma train_extends:
  assumes "calculate_volatility_features E d w0 = (r1, w1)"
  shows "\<exists>more. objs (snd (train E d w0)) = objs w1 @ more"
proof (cases r1)
  case (Inl e)
  then show ?thesis using train_features_fail [of E d w0 e w1] assms by simp
next
  case (Inr out)
  then show ?thesis
    unfolding train_def using assms
    by (simp add: run_simps model_fit_run self_save_run Let_def
        split: sum.splits option.splits)
qed

lemma inference_extends:
  assumes valid: "df < length (objs w)"
  shows "\<exists>news. objs (snd (inference E df w)) = objs w @ news"
proof -
  let ?f0 = "objs w ! df"
  let ?f2 = "map_columns bfill (map_columns ffill ?f0)"
  let ?names = "returned_names @ [''close'']"
  show ?thesis
  proof (cases "timedelta_ratio E (self_volatility_window (self w)) (self_candle_interval (self w))")
    case (Inl e)
    show ?thesis using inference_fail_ratio [OF Inl, of df] by simp
  next
    case (Inr wp)
    show ?thesis
    proof (cases "col ?f0 ''close''")
      case None
      show ?thesis using inference_fail_close [OF valid Inr None] by simp
    next
      case close: (Some c0)
      show ?thesis
      proof (cases "col ?f0 ''volume''")
        case None
        show ?thesis using inference_fail_volume [OF valid Inr close None] by simp
      next
        case volume: (Some v0)
        show ?thesis
        proof (cases "calculate_non_overlapping_volatility E (fill_both c0) wp")
          case (Inl e)
          show ?thesis using inference_fail_volatility [OF valid Inr close volume Inl] by simp
        next
          case cv: (Inr cv)
          define F where "F = assign_all (assigned_columns E (fill_both c0) (fill_both v0) @
               [(''current_volatility'', cv)]) ?f2"
          define sel where "sel = \<lparr>index = index F,
              columns = map (\<lambda>n. (n, the (col F n))) ?names\<rparr>"
          define X where "X = map_columns (fill_zero (zero E)) sel"
          define wP where "wP = w\<lparr>objs := objs w @ [?f0, map_columns ffill ?f0, F, sel, X],
                   calls := calls w @ [Predict_call X]\<rparr>"
          have inF: "col F n \<noteq> None" if "n \<in> set ?names" for n
            by (rule inference_have_columns [OF F_def _ that]) (simp add: col_map_columns close)
          have "select F ?names = Inr sel"
            unfolding sel_def by (rule select_returns) (rule inF)
          then have sel: "select F [''log_return_t-1'', ''volume_t-1'', ''log_return_t-2'',
              ''volume_t-2'', ''log_return_t-3'', ''volume_t-3'', ''log_return_t-4'',
              ''volume_t-4'', ''SMA_10'', ''EMA_10'', ''current_volatility'', ''close''] = Inr sel"
            by (simp add: returned_names_def)
          show ?thesis
            using inference_run [OF valid close volume Inr cv F_def sel X_def wP_def]
            by (auto simp: wP_def split: sum.splits)
        qed
      qed
    qed
  qed
qed

text \<open>
  Claim C9. Whatever their outcome, \<^verbatim>\<open>train\<close> and \<^verbatim>\<open>inference\<close> leave every table
  that existed before the call as it was, in particular the table they were given:
  the assignments go to the table that \<^verbatim>\<open>copy\<close> and \<^verbatim>\<open>fillna\<close> built.
\<close>

theorem input_unchanged:
  assumes "data < length (objs w0)"
  shows "take (length (objs w0)) (objs (snd (train E data w0))) = objs w0 \<and>
     take (length (objs w0)) (objs (snd (inference E data w0))) = objs w0 \<and>
     objs (snd (train E data w0)) ! data = objs w0 ! data \<and>
     objs (snd (inference E data w0)) ! data = objs w0 ! data"
proof -
  obtain r1 w1 where first: "calculate_volatility_features E data w0 = (r1, w1)"
    by (cases "calculate_volatility_features E data w0")
  from features_two_worlds [OF assms assms refl refl refl, of E]
  obtain news where "w1 = w0\<lparr>objs := objs w0 @ news\<rparr>"
    using first by auto
  then have "objs w1 = objs w0 @ news" by simp
  moreover obtain more where "objs (snd (train E data w0)) = objs w1 @ more"
    using train_extends [OF first] by blast
  ultimately have t: "objs (snd (train E data w0)) = objs w0 @ (news @ more)" by simp
  obtain news' where i: "objs (snd (inference E data w0)) = objs w0 @ news'"
    using inference_extends [OF assms] by blast
  show ?thesis
    using assms by (simp add: t i nth_append)
qed

theorem input_unchanged_witness:
  "0 < length (objs (world_of (bars 12))) \<and>
   objs (snd (train sym_ext 0 (world_of (bars 12)))) ! 0 = bars 12 \<and>
   objs (snd (inference sym_ext 0 (world_of (bars 12)))) ! 0 = bars 12"
proof -
  have v: "0 < length (objs (world_of (bars 12)))" by (simp add: world_of_simps)
  from input_unchanged [OF v, of sym_ext] show ?thesis
    by (simp add: world_of_simps)
qed

subsection \<open>The methods on concrete bars\<close>

text \<open>The methods run on the example bars, evaluated with the instance of the
  libraries: twelve and twenty bars for the training path, three for inference.\<close>

lemma twelve_bars_features:
  "col (objs (snd (calculate_volatility_features sym_ext 0 (world_of (bars 12))))
      ! local_df (world_of (bars 12))) ''current_volatility'' =
    Some (replicate 5 (Some (Std [Log_ratio (Num 101) (Num 100), Log_ratio (Num 104) (Num 101),
            Log_ratio (Num 109) (Num 104), Log_ratio (Num 116) (Num 109)])) @
          replicate 5 (Some (Std [Log_ratio (Num 125) (Num 116), Log_ratio (Num 136) (Num 125),
            Log_ratio (Num 149) (Num 136), Log_ratio (Num 164) (Num 149),
            Log_ratio (Num 181) (Num 164)])) @
          [None, None])"
  "col (objs (snd (calculate_volatility_features sym_ext 0 (world_of (bars 12))))
      ! local_df (world_of (bars 12))) ''target_volatility'' =
    Some (replicate 5 (Some (Std [Log_ratio (Num 125) (Num 116), Log_ratio (Num 136) (Num 125),
            Log_ratio (Num 149) (Num 136), Log_ratio (Num 164) (Num 149),
            Log_ratio (Num 181) (Num 164)])) @
          replicate 7 None)"
  by code_simp+

lemma twenty_bars_train:
  "fst (train sym_ext 0 (world_of (bars 20))) = Inr ()"
  "index (objs (snd (train sym_ext 0 (world_of (bars 20)))) ! local_dropped (world_of (bars 20))) = [10]"
  "calls (snd (train sym_ext 0 (world_of (bars 20)))) =
    [Fit_call
      \<lparr>index = [10],
       columns =
        [(''log_return_t-1'', [Some (Log_ratio (Num 181) (Num 164))]),
         (''volume_t-1'', [Some (Num 19)]),
         (''log_return_t-2'', [Some (Log_ratio (Num 164) (Num 149))]),
         (''volume_t-2'', [Some (Num 18)]),
         (''log_return_t-3'', [Some (Log_ratio (Num 149) (Num 136))]),
         (''volume_t-3'', [Some (Num 17)]),
         (''log_return_t-4'', [Some (Log_ratio (Num 136) (Num 125))]),
         (''volume_t-4'', [Some (Num 16)]),
         (''SMA_10'',
          [Some (Mean [Num 101, Num 104, Num 109, Num 116, Num 125, Num 136,
               Num 149, Num 164, Num 181, Num 200])]),
         (''EMA_10'',
          [Some (Ewm 0 (Ewm 0 (Ewm 0 (Ewm 0 (Ewm 0 (Ewm 0 (Ewm 0 (Ewm 0 (Ewm 0 (Ewm 0
             (Num 100) (Num 101)) (Num 104)) (Num 109)) (Num 116)) (Num 125)) (Num 136))
             (Num 149)) (Num 164)) (Num 181)) (Num 200))]),
         (''current_volatility'',
          [Some (Std [Log_ratio (Num 200) (Num 181), Log_ratio (Num 221) (Num 200),
                  Log_ratio (Num 244) (Num 221), Log_ratio (Num 269) (Num 244),
                  Log_ratio (Num 296) (Num 269)])]),
         (''close'', [Some (Num 200)])]\<rparr>
      [Some (Std [Log_ratio (Num 325) (Num 296), Log_ratio (Num 356) (Num 325),
           Log_ratio (Num 389) (Num 356), Log_ratio (Num 424) (Num 389),
           Log_ratio (Num 461) (Num 424)])],
     Save_call]"
  by code_simp+

lemma three_bars_inference:
  "fst (inference sym_ext 0 (fitted_world_of (bars 3))) = Inr 6"
  "objs (snd (inference sym_ext 0 (fitted_world_of (bars 3)))) ! local_features (fitted_world_of (bars 3)) =
   \<lparr>index = [0, 1, 2],
    columns =
      [(''log_return_t-1'',
        [Some (Num 0), Some (Num 0), Some (Log_ratio (Num 101) (Num 100))]),
       (''volume_t-1'', [Some (Num 0), Some (Num 10), Some (Num 11)]),
       (''log_return_t-2'', [Some (Num 0), Some (Num 0), Some (Num 0)]),
       (''volume_t-2'', [Some (Num 0), Some (Num 0), Some (Num 10)]),
       (''log_return_t-3'', [Some (Num 0), Some (Num 0), Some (Num 0)]),
       (''volume_t-3'', [Some (Num 0), Some (Num 0), Some (Num 0)]),
       (''log_return_t-4'', [Some (Num 0), Some (Num 0), Some (Num 0)]),
       (''volume_t-4'', [Some (Num 0), Some (Num 0), Some (Num 0)]),
       (''SMA_10'', [Some (Num 0), Some (Num 0), Some (Num 0)]),
       (''EMA_10'',
        [Some (Num 100), Some (Ewm 0 (Num 100) (Num 101)),
         Some (Ewm 0 (Ewm 0 (Num 100) (Num 101)) (Num 104))]),
       (''current_volatility'', [Some (Num 0), Some (Num 0), Some (Num 0)]),
       (''close'', [Some (Num 100), Some (Num 101), Some (Num 104)])]\<rparr>"
  by code_simp+

lemma target_shifted_by_five_example:
  "ready sym_ext (world_of (bars 12)) 0 5 \<and> (0::int) < 5 \<and>
   (\<exists>df_sampled names w1 current target sampled_target.
     calculate_volatility_features sym_ext 0 (world_of (bars 12)) = (Inr (df_sampled, names), w1) \<and>
     col (objs w1 ! local_df (world_of (bars 12))) ''current_volatility'' = Some current \<and>
     col (objs w1 ! local_df (world_of (bars 12))) ''target_volatility'' = Some target \<and>
     current =
       replicate 5 (Some (Std [Log_ratio (Num 101) (Num 100), Log_ratio (Num 104) (Num 101),
            Log_ratio (Num 109) (Num 104), Log_ratio (Num 116) (Num 109)])) @
       replicate 5 (Some (Std [Log_ratio (Num 125) (Num 116), Log_ratio (Num 136) (Num 125),
            Log_ratio (Num 149) (Num 136), Log_ratio (Num 164) (Num 149),
            Log_ratio (Num 181) (Num 164)])) @
       [None, None] \<and>
     target =
       replicate 5 (Some (Std [Log_ratio (Num 125) (Num 116), Log_ratio (Num 136) (Num 125),
            Log_ratio (Num 149) (Num 136), Log_ratio (Num 164) (Num 149),
            Log_ratio (Num 181) (Num 164)])) @
       replicate 7 None \<and>
     target ! 2 = current ! 7 \<and>
     target ! 8 = None \<and>
     col (objs w1 ! df_sampled) ''target_volatility'' = Some sampled_target \<and>
     length sampled_target = 3 \<and>
     sampled_target ! 1 = target ! 5)"
proof -
  let ?w = "world_of (bars 12)"
  have r: "ready sym_ext ?w 0 5" by (rule ready_bars)
  have p: "(0::int) < 5" by simp
  from target_shifted_by_five [OF r p]
  obtain df_sampled names w1 current target sampled_target where
    run: "calculate_volatility_features sym_ext 0 ?w = (Inr (df_sampled, names), w1)"
    and cur: "col (objs w1 ! local_df ?w) ''current_volatility'' = Some current"
    and tar: "col (objs w1 ! local_df ?w) ''target_volatility'' = Some target"
    and lc: "length current = length (index (objs ?w ! 0))"
    and lt: "length target = length (index (objs ?w ! 0))"
    and sh: "\<And>t. t < length target \<Longrightarrow> target ! t =
          (if t + 5 < length current then current ! (t + 5) else None)"
    and st: "col (objs w1 ! df_sampled) ''target_volatility'' = Some sampled_target"
    and ls: "length sampled_target = (length target + nat 5 - 1) div nat 5"
    and pk: "\<And>j. j < length sampled_target \<Longrightarrow> sampled_target ! j = target ! (j * nat 5)"
    by blast
  have w1: "w1 = snd (calculate_volatility_features sym_ext 0 ?w)" using run by simp
  have vals: "current =
       replicate 5 (Some (Std [Log_ratio (Num 101) (Num 100), Log_ratio (Num 104) (Num 101),
            Log_ratio (Num 109) (Num 104), Log_ratio (Num 116) (Num 109)])) @
       replicate 5 (Some (Std [Log_ratio (Num 125) (Num 116), Log_ratio (Num 136) (Num 125),
            Log_ratio (Num 149) (Num 136), Log_ratio (Num 164) (Num 149),
            Log_ratio (Num 181) (Num 164)])) @
       [None, None]"
    "target =
       replicate 5 (Some (Std [Log_ratio (Num 125) (Num 116), Log_ratio (Num 136) (Num 125),
            Log_ratio (Num 149) (Num 136), Log_ratio (Num 164) (Num 149),
            Log_ratio (Num 181) (Num 164)])) @
       replicate 7 None"
    using cur tar twelve_bars_features unfolding w1 by simp_all
  have n: "length target = 12" "length current = 12"
    using lt lc by (simp_all add: world_of_simps bars_simps)
  have a: "target ! 2 = current ! 7" using sh [of 2] n by simp
  have b: "target ! 8 = None" using sh [of 8] n by simp
  have l3: "length sampled_target = 3" using ls n by simp
  then have d: "sampled_target ! 1 = target ! 5" using pk [of 1] by simp
  show ?thesis
    apply (intro conjI r p)
    apply (rule exI [of _ df_sampled], rule exI [of _ names], rule exI [of _ w1])
    apply (rule exI [of _ current], rule exI [of _ target], rule exI [of _ sampled_target])
    apply (intro conjI)
    subgoal by (fact run)
    subgoal by (fact cur)
    subgoal by (fact tar)
    subgoal by (fact vals(1))
    subgoal by (fact vals(2))
    subgoal by (fact a)
    subgoal by (fact b)
    subgoal by (fact st)
    subgoal by (fact l3)
    subgoal by (fact d)
    done
qed

text \<open>
  Claim C2. The specification gives the lag of the target as the \<open>target_shift\<close> of
  the configuration, documented there as the prediction horizon. The method does not
  read that field. A wrapper built with \<open>target_shift = 3\<close> and run on twelve
  one-minute bars (two full windows of five bars) still writes the current volatility
  of five bars later: the target column is \<^verbatim>\<open>shift(-5)\<close> of the current volatility
  and not \<^verbatim>\<open>shift(-3)\<close> of it, row \<open>0\<close> holds the volatility of the second window
  where bar \<open>3\<close> is in the first, and rows \<open>5\<close> and \<open>6\<close> are missing where bars \<open>8\<close>
  and \<open>9\<close> have a volatility.
\<close>

theorem target_ignores_configured_shift:
  "target_shift (config (self (world_with_target_shift 3 (bars 12)))) = 3 \<and>
   fst (calculate_volatility_features sym_ext 0 (world_with_target_shift 3 (bars 12))) =
     Inr (5, returned_names) \<and>
   col (objs (snd (calculate_volatility_features sym_ext 0 (world_with_target_shift 3 (bars 12))))
          ! local_df (world_with_target_shift 3 (bars 12))) ''current_volatility'' =
     Some (replicate 5 (Some (Std [Log_ratio (Num 101) (Num 100), Log_ratio (Num 104) (Num 101),
            Log_ratio (Num 109) (Num 104), Log_ratio (Num 116) (Num 109)])) @
       replicate 5 (Some (Std [Log_ratio (Num 125) (Num 116), Log_ratio (Num 136) (Num 125),
            Log_ratio (Num 149) (Num 136), Log_ratio (Num 164) (Num 149),
            Log_ratio (Num 181) (Num 164)])) @
       [None, None]) \<and>
   col (objs (snd (calculate_volatility_features sym_ext 0 (world_with_target_shift 3 (bars 12))))
          ! local_df (world_with_target_shift 3 (bars 12))) ''target_volatility'' =
     Some (replicate 5 (Some (Std [Log_ratio (Num 125) (Num 116), Log_ratio (Num 136) (Num 125),
            Log_ratio (Num 149) (Num 136), Log_ratio (Num 164) (Num 149),
            Log_ratio (Num 181) (Num 164)])) @
       replicate 7 None) \<and>
   col (objs (snd (calculate_volatility_features sym_ext 0 (world_with_target_shift 3 (bars 12))))
          ! local_df (world_with_target_shift 3 (bars 12))) ''target_volatility'' =
     map_option (shift (- 5))
       (col (objs (snd (calculate_volatility_features sym_ext 0
                          (world_with_target_shift 3 (bars 12))))
          ! local_df (world_with_target_shift 3 (bars 12))) ''current_volatility'') \<and>
   col (objs (snd (calculate_volatility_features sym_ext 0 (world_with_target_shift 3 (bars 12))))
          ! local_df (world_with_target_shift 3 (bars 12))) ''target_volatility'' \<noteq>
     map_option (shift (- 3))
       (col (objs (snd (calculate_volatility_features sym_ext 0
                          (world_with_target_shift 3 (bars 12))))
          ! local_df (world_with_target_shift 3 (bars 12))) ''current_volatility'')"
  by code_simp

theorem sampler_rows_witness:
  "ready sym_ext (world_of (bars 20)) 0 5 \<and> (0::int) < 5 \<and>
   (\<exists>w1 X y.
     train sym_ext 0 (world_of (bars 20)) = (Inr (), w1) \<and>
     index (objs w1 ! local_df_sampled (world_of (bars 20))) = [0, 5, 10, 15] \<and>
     index (objs w1 ! local_dropped (world_of (bars 20))) = [10] \<and>
     frame_no_missing (objs w1 ! local_dropped (world_of (bars 20))) \<and>
     calls w1 = [Fit_call X y, Save_call] \<and>
     col X ''SMA_10'' =
       Some [Some (Mean [Num 101, Num 104, Num 109, Num 116, Num 125, Num 136,
               Num 149, Num 164, Num 181, Num 200])] \<and>
     col X ''log_return_t-1'' = Some [Some (Log_ratio (Num 181) (Num 164))] \<and>
     col X ''close'' = Some [Some (Num 200)] \<and>
     y = [Some (Std [Log_ratio (Num 325) (Num 296), Log_ratio (Num 356) (Num 325),
           Log_ratio (Num 389) (Num 356), Log_ratio (Num 424) (Num 389),
           Log_ratio (Num 461) (Num 424)])] \<and>
     frame_no_missing X \<and> no_missing y)"
proof -
  let ?w = "world_of (bars 20)"
  have r: "ready sym_ext ?w 0 5" by (rule ready_bars)
  have p: "(0::int) < 5" by simp
  from sampler_rows [OF r p]
  obtain res w1 X y where
    run: "train sym_ext 0 ?w = (res, w1)"
    and idx: "index (objs w1 ! local_df_sampled ?w) =
       map (\<lambda>j. index (objs ?w ! 0) ! (j * nat 5))
         [0..<(length (index (objs ?w ! 0)) + nat 5 - 1) div nat 5]"
    and full: "frame_no_missing (objs w1 ! local_dropped ?w)"
    and call: "Fit_call X y \<in> set (calls w1)"
    and Xfull: "frame_no_missing X" and yfull: "no_missing y"
    by (elim exE conjE) (rule that, assumption+)
  have res: "res = Inr ()" and w1: "w1 = snd (train sym_ext 0 ?w)"
    using run twenty_bars_train(1) by simp_all
  have rows: "[0..<(length (index (objs ?w ! 0)) + nat 5 - 1) div nat 5] = [0, 1, 2, 3]"
    by (simp add: world_of_simps bars_simps upt_rec)
  have i: "index (objs w1 ! local_df_sampled ?w) = [0, 5, 10, 15]"
    unfolding idx rows by (simp add: world_of_simps bars_simps)
  have d: "index (objs w1 ! local_dropped ?w) = [10]"
    unfolding w1 by (rule twenty_bars_train(2))
  note c = twenty_bars_train(3) [folded w1]
  from call have Xy: "Fit_call X y = Fit_call
      \<lparr>index = [10],
       columns =
        [(''log_return_t-1'', [Some (Log_ratio (Num 181) (Num 164))]),
         (''volume_t-1'', [Some (Num 19)]),
         (''log_return_t-2'', [Some (Log_ratio (Num 164) (Num 149))]),
         (''volume_t-2'', [Some (Num 18)]),
         (''log_return_t-3'', [Some (Log_ratio (Num 149) (Num 136))]),
         (''volume_t-3'', [Some (Num 17)]),
         (''log_return_t-4'', [Some (Log_ratio (Num 136) (Num 125))]),
         (''volume_t-4'', [Some (Num 16)]),
         (''SMA_10'',
          [Some (Mean [Num 101, Num 104, Num 109, Num 116, Num 125, Num 136,
               Num 149, Num 164, Num 181, Num 200])]),
         (''EMA_10'',
          [Some (Ewm 0 (Ewm 0 (Ewm 0 (Ewm 0 (Ewm 0 (Ewm 0 (Ewm 0 (Ewm 0 (Ewm 0 (Ewm 0
             (Num 100) (Num 101)) (Num 104)) (Num 109)) (Num 116)) (Num 125)) (Num 136))
             (Num 149)) (Num 164)) (Num 181)) (Num 200))]),
         (''current_volatility'',
          [Some (Std [Log_ratio (Num 200) (Num 181), Log_ratio (Num 221) (Num 200),
                  Log_ratio (Num 244) (Num 221), Log_ratio (Num 269) (Num 244),
                  Log_ratio (Num 296) (Num 269)])]),
         (''close'', [Some (Num 200)])]\<rparr>
      [Some (Std [Log_ratio (Num 325) (Num 296), Log_ratio (Num 356) (Num 325),
           Log_ratio (Num 389) (Num 356), Log_ratio (Num 424) (Num 389),
           Log_ratio (Num 461) (Num 424)])]"
    unfolding c by simp
  then have cs: "calls w1 = [Fit_call X y, Save_call]" using c by simp
  from Xy have Xv: "col X ''SMA_10'' =
       Some [Some (Mean [Num 101, Num 104, Num 109, Num 116, Num 125, Num 136,
               Num 149, Num 164, Num 181, Num 200])]"
    "col X ''log_return_t-1'' = Some [Some (Log_ratio (Num 181) (Num 164))]"
    "col X ''close'' = Some [Some (Num 200)]"
    and yv: "y = [Some (Std [Log_ratio (Num 325) (Num 296), Log_ratio (Num 356) (Num 325),
           Log_ratio (Num 389) (Num 356), Log_ratio (Num 424) (Num 389),
           Log_ratio (Num 461) (Num 424)])]"
    by (simp_all add: col_def)
  show ?thesis
    apply (intro conjI r p)
    apply (rule exI [of _ w1], rule exI [of _ X], rule exI [of _ y])
    apply (intro conjI)
    subgoal using run res by simp
    subgoal by (fact i)
    subgoal by (fact d)
    subgoal by (fact full)
    subgoal by (fact cs)
    subgoal by (fact Xv(1))
    subgoal by (fact Xv(2))
    subgoal by (fact Xv(3))
    subgoal by (fact yv)
    subgoal by (fact Xfull)
    subgoal by (fact yfull)
    done
qed

theorem inference_rows_witness:
  "ready sym_ext (fitted_world_of (bars 3)) 0 5 \<and> (5::int) \<noteq> 0 \<and>
   (\<exists>X p w1 predictions.
      inference sym_ext 0 (fitted_world_of (bars 3)) = (Inr p, w1) \<and>
      objs w1 ! p = \<lparr>index = [0, 1, 2], columns = [(''prediction'', predictions)]\<rparr> \<and>
      length predictions = 3 \<and>
      calls w1 = [Predict_call X] \<and>
      index X = [0, 1, 2] \<and>
      col X ''log_return_t-1'' =
        Some [Some (Num 0), Some (Num 0), Some (Log_ratio (Num 101) (Num 100))] \<and>
      col X ''current_volatility'' = Some [Some (Num 0), Some (Num 0), Some (Num 0)] \<and>
      col X ''close'' = Some [Some (Num 100), Some (Num 101), Some (Num 104)] \<and>
      frame_no_missing X)"
proof -
  let ?w = "fitted_world_of (bars 3)"
  have r: "ready sym_ext ?w 0 5" by (rule ready_fitted)
  have nz: "(5::int) \<noteq> 0" by simp
  have w: "objs ?w ! 0 = bars 3" "calls ?w = []" "model (self ?w) = Fitted (bars 1) [Some (Num 0)]"
    by (simp_all add: fitted_world_of_def world_of_simps)
  have n: "index (bars 3) = [0, 1, 2]" by (simp add: bars_simps upt_rec)
  from inference_rows [OF r nz]
  obtain X res w1 where
    run: "inference sym_ext 0 ?w = (res, w1)"
    and atX: "objs w1 ! local_features ?w = X"
    and calls: "calls w1 = calls ?w @ [Predict_call X]"
    and iX: "index X = index (objs ?w ! 0)"
    and full: "frame_no_missing X"
    and outcome: "case res of
        Inr p \<Rightarrow>
          (\<exists>predictions.
             predict sym_ext (model (self ?w)) X = Inr predictions \<and>
             length predictions = length (index (objs ?w ! 0)) \<and>
             objs w1 ! p = \<lparr>index = index (objs ?w ! 0),
                             columns = [(''prediction'', predictions)]\<rparr>)
      | Inl e \<Rightarrow>
          predict sym_ext (model (self ?w)) X = Inl e \<or>
          (\<exists>predictions. predict sym_ext (model (self ?w)) X = Inr predictions \<and>
             length predictions \<noteq> length (index (objs ?w ! 0)))"
    and returns: "\<forall>predictions.
        predict sym_ext (model (self ?w)) X = Inr predictions \<and>
        length predictions = length (index (objs ?w ! 0)) \<longrightarrow> (\<exists>p. res = Inr p)"
    by (elim exE conjE) (rule that, assumption+)
  have w1: "w1 = snd (inference sym_ext 0 ?w)" using run by simp
  have Xv: "col X ''log_return_t-1'' =
        Some [Some (Num 0), Some (Num 0), Some (Log_ratio (Num 101) (Num 100))]"
    "col X ''current_volatility'' = Some [Some (Num 0), Some (Num 0), Some (Num 0)]"
    "col X ''close'' = Some [Some (Num 100), Some (Num 101), Some (Num 104)]"
    using three_bars_inference(2) atX unfolding w1 by (auto simp: col_def)
  have "predict sym_ext (model (self ?w)) X =
      Inr (map (\<lambda>row. Some (Prediction (present row))) (rows_of X))"
    unfolding w by (rule predict_sym_fitted) (simp add: iX w n)
  moreover have "length (map (\<lambda>row. Some (Prediction (present row))) (rows_of X)) =
      length (index (objs ?w ! 0))"
    by (simp add: rows_of_def iX)
  ultimately obtain p where p: "res = Inr p" using returns by blast
  with outcome obtain predictions where
    "length predictions = length (index (objs ?w ! 0))"
    "objs w1 ! p = \<lparr>index = index (objs ?w ! 0), columns = [(''prediction'', predictions)]\<rparr>"
    by auto
  then show ?thesis
    using r run p calls iX full Xv by (auto simp: w n)
qed

end
